theory Spec2Isabelle
  imports Main "HOL-Library.AList" "HOL-Library.Char_ord" "HOL-Library.List_Lexorder"
begin

section \<open>Values, errors and the environment of the handlers\<close>

text \<open>
  The server of \<^verbatim>\<open>llm_webui/server.py\<close> turns HTTP requests into calls of the external
  \<^verbatim>\<open>llm\<close> command. Python text is modelled by its UTF-8 bytes, a \<open>string\<close>; the order of
  \<open>HOL-Library.Char_ord\<close> and \<open>HOL-Library.List_Lexorder\<close> on such strings is the order
  Python's \<^verbatim>\<open>str\<close> comparison gives (UTF-8 keeps the order of code points).

  What the handlers call in the Python library (\<^verbatim>\<open>json.loads\<close>, \<^verbatim>\<open>json.dumps\<close>,
  \<^verbatim>\<open>str\<close>, \<^verbatim>\<open>shlex.split\<close>, \<^verbatim>\<open>bytes.decode\<close>) and in the operating system
  (\<^verbatim>\<open>subprocess.run\<close>, \<^verbatim>\<open>asyncio.create_subprocess_exec\<close>) is no code of the server:
  each handler takes these as parameters. A call that may raise returns a sum, \<open>Inl\<close> the
  \<^verbatim>\<open>str(e)\<close> of the exception raised.
\<close>

datatype json =
    JNull
  | JBool bool
  | JInt int
  | JString string
  | JArray "json list"
  | JObject "(string \<times> json) list"

datatype error =
    HTTPException int string  \<comment> \<open>raised by a handler: status code and detail\<close>
  | ValueError                \<comment> \<open>unpacking a sequence that has not exactly two items\<close>
  | Exception string          \<comment> \<open>any other exception that leaves the handler, with its text\<close>

record CompletedProcess =
  returncode :: int
  stdout :: string
  stderr :: string

text \<open>\<^verbatim>\<open>subprocess.run(cmd, capture_output=True, text=True, ...)\<close>: the command either cannot
  be run (\<open>Inl\<close>, for instance \<^verbatim>\<open>FileNotFoundError\<close>) or completes.\<close>

type_synonym subprocess_run = "string list \<Rightarrow> string + CompletedProcess"

text \<open>\<^verbatim>\<open>json.loads\<close>: \<open>None\<close> stands for \<^verbatim>\<open>json.JSONDecodeError\<close>.\<close>

type_synonym 'a json_loads = "string \<Rightarrow> 'a option"

text \<open>Python's \<^verbatim>\<open>str\<close> of an integer.\<close>

definition digit_char :: "nat \<Rightarrow> char" where
  "digit_char d = char_of (of_char CHR ''0'' + d)"

fun str_nat :: "nat \<Rightarrow> string" where
  "str_nat n = (if n < 10 then [digit_char n] else str_nat (n div 10) @ [digit_char (n mod 10)])"

definition str_int :: "int \<Rightarrow> string" where
  "str_int i = (if i < 0 then CHR ''-'' # str_nat (nat (- i)) else str_nat (nat i))"

section \<open>Listing endpoints\<close>

text \<open>
  Every listing handler has the same frame:
  \<^verbatim>\<open>
  try:
      result = subprocess.run([...], capture_output=True, text=True, check=True)
      return json.loads(result.stdout)
  except subprocess.CalledProcessError as e:
      raise HTTPException(status_code=500, detail=f"Failed to ...: {e.stderr}")
  except json.JSONDecodeError:
      ...
  \<close>
  \<^verbatim>\<open>check=True\<close> raises \<^verbatim>\<open>CalledProcessError\<close> on a non-zero exit code; an exception of
  another class is not caught. The frame takes what the handler does with the decoded
  output (\<open>body\<close>) and what it does on \<^verbatim>\<open>JSONDecodeError\<close> (\<open>on_decode_error\<close>).
\<close>

definition run_and_load ::
  "subprocess_run \<Rightarrow> 'a json_loads \<Rightarrow> string list \<Rightarrow> string \<Rightarrow> ('a \<Rightarrow> error + 'b) \<Rightarrow> error + 'b
     \<Rightarrow> error + 'b" where
  "run_and_load run loads cmd failed body on_decode_error =
     (case run cmd of
        Inl e \<Rightarrow> Inl (Exception e)
      | Inr result \<Rightarrow>
          if returncode result \<noteq> 0 then Inl (HTTPException 500 (failed @ stderr result))
          else (case loads (stdout result) of
                  None \<Rightarrow> on_decode_error
                | Some v \<Rightarrow> body v))"

definition get_models :: "subprocess_run \<Rightarrow> json json_loads \<Rightarrow> error + json" where
  "get_models run loads =
     run_and_load run loads [''llm'', ''models'', ''list'', ''--json'']
       ''Failed to get models: '' Inr
       (Inl (HTTPException 500 ''Failed to parse models response''))"

definition get_tools :: "subprocess_run \<Rightarrow> json json_loads \<Rightarrow> error + json" where
  "get_tools run loads =
     run_and_load run loads [''llm'', ''tools'', ''list'', ''--json'']
       ''Failed to get tools: '' Inr
       (Inr (JObject [(''tools'', JArray [])]))"

definition get_logs :: "subprocess_run \<Rightarrow> json json_loads \<Rightarrow> int \<Rightarrow> error + json" where
  "get_logs run loads count =
     run_and_load run loads [''llm'', ''logs'', ''list'', ''-n'', str_int count, ''--json'']
       ''Failed to get logs: '' Inr
       (Inr (JObject [(''logs'', JArray [])]))"

definition get_conversation :: "subprocess_run \<Rightarrow> json json_loads \<Rightarrow> string \<Rightarrow> error + json" where
  "get_conversation run loads cid =
     run_and_load run loads [''llm'', ''logs'', ''list'', ''--cid'', cid, ''--json'']
       ''Failed to fetch conversation: '' Inr
       (Inr (JArray []))"


subsection \<open>Conversations\<close>

text \<open>
  A log row is a dictionary. The handler reads the keys \<^verbatim>\<open>conversation_id\<close>,
  \<^verbatim>\<open>datetime_utc\<close>, \<^verbatim>\<open>model\<close> and \<^verbatim>\<open>prompt\<close>; their values are modelled as a
  string or \<^verbatim>\<open>None\<close> (JSON null), which is what the log store of the external tool
  holds in them.
\<close>

datatype pyval = PNone | PStr string

type_synonym row = "string \<rightharpoonup> pyval"

text \<open>Python's truth value: \<^verbatim>\<open>None\<close> and the empty string are false.\<close>

fun truthy :: "pyval \<Rightarrow> bool" where
  "truthy PNone = False"
| "truthy (PStr s) = (s \<noteq> [])"

definition dict_get :: "row \<Rightarrow> string \<Rightarrow> pyval" where
  "dict_get d k = (case d k of None \<Rightarrow> PNone | Some v \<Rightarrow> v)"

definition dict_get_default :: "row \<Rightarrow> string \<Rightarrow> pyval \<Rightarrow> pyval" where
  "dict_get_default d k dflt = (case d k of None \<Rightarrow> dflt | Some v \<Rightarrow> v)"

record conv =
  conversation_id :: string
  latest :: pyval
  model :: pyval
  count :: int
  last_prompt :: pyval

text \<open>
  \<^verbatim>\<open>convs\<close> is a dictionary, which keeps its keys in the order of their insertion: an
  association list, a new key going to the end. \<^verbatim>\<open>setdefault\<close> returns the value
  stored under the key, after storing the default when the key is new.
\<close>

definition setdefault :: "('k \<times> 'v) list \<Rightarrow> 'k \<Rightarrow> 'v \<Rightarrow> 'v \<times> ('k \<times> 'v) list" where
  "setdefault d k dflt =
     (case map_of d k of
        Some v \<Rightarrow> (v, d)
      | None \<Rightarrow> (dflt, d @ [(k, dflt)]))"

text \<open>
  The test \<^verbatim>\<open>row.get("datetime_utc") and (not conv["latest"] or row.get("datetime_utc") > conv["latest"])\<close>.
  The comparison is only reached with two non-empty strings.
\<close>

fun is_later :: "pyval \<Rightarrow> pyval \<Rightarrow> bool" where
  "is_later PNone l = False"
| "is_later (PStr d) PNone = (d \<noteq> [])"
| "is_later (PStr d) (PStr l) = (d \<noteq> [] \<and> (l = [] \<or> d > l))"

text \<open>The body of the loop \<^verbatim>\<open>for row in logs\<close>.\<close>

definition add_row :: "row \<Rightarrow> (string \<times> conv) list \<Rightarrow> (string \<times> conv) list" where
  "add_row row convs =
     (case dict_get row ''conversation_id'' of
        PNone \<Rightarrow> convs
      | PStr cid \<Rightarrow>
          if cid = [] then convs
          else
            let (conv, convs) = setdefault convs cid
                  \<lparr>conversation_id = cid,
                   latest = dict_get row ''datetime_utc'',
                   model = dict_get row ''model'',
                   count = 0,
                   last_prompt = dict_get_default row ''prompt'' (PStr [])\<rparr>;
                conv = conv\<lparr>count := count conv + 1\<rparr>;
                conv =
                  (if is_later (dict_get row ''datetime_utc'') (latest conv)
                   then conv\<lparr>latest := dict_get row ''datetime_utc'',
                             last_prompt := dict_get_default row ''prompt'' (PStr []),
                             model := dict_get row ''model''\<rparr>
                   else conv)
            in AList.update cid conv convs)"

definition group_rows :: "row list \<Rightarrow> (string \<times> conv) list" where
  "group_rows logs = fold add_row logs []"

text \<open>The sort key \<^verbatim>\<open>lambda x: x["latest"] or ""\<close>.\<close>

fun latest_key :: "conv \<Rightarrow> string" where
  "latest_key c = (case latest c of PNone \<Rightarrow> [] | PStr s \<Rightarrow> s)"

text \<open>
  \<^verbatim>\<open>sorted(xs, key=key, reverse=True)\<close>: Python sorts stably, and with \<^verbatim>\<open>reverse=True\<close>
  elements of equal key keep their order too: the list is reversed, sorted stably in
  ascending order and reversed again.
\<close>

definition sorted_reverse :: "('a \<Rightarrow> 'k::linorder) \<Rightarrow> 'a list \<Rightarrow> 'a list" where
  "sorted_reverse key xs = rev (sort_key key (rev xs))"

text \<open>The slice \<^verbatim>\<open>xs[:limit]\<close>: a negative \<^verbatim>\<open>limit\<close> counts from the end.\<close>

definition slice_to :: "'a list \<Rightarrow> int \<Rightarrow> 'a list" where
  "slice_to xs limit =
     (if 0 \<le> limit then take (nat limit) xs
      else take (length xs - nat (- limit)) xs)"

text \<open>\<^verbatim>\<open>conv_list = sorted(convs.values(), ...)\<close> and the value returned,
  \<^verbatim>\<open>conv_list[:limit]\<close>.\<close>

definition conv_list :: "row list \<Rightarrow> conv list" where
  "conv_list logs = sorted_reverse latest_key (map snd (group_rows logs))"

definition conversations_of :: "row list \<Rightarrow> int \<Rightarrow> conv list" where
  "conversations_of logs limit = slice_to (conv_list logs) limit"

text \<open>
  For the statement of what a summary holds: the rows of a conversation, in the order of
  the log, and the non-empty timestamps among rows.
\<close>

definition rows_of :: "string \<Rightarrow> row list \<Rightarrow> row list" where
  "rows_of cid logs = filter (\<lambda>row. dict_get row ''conversation_id'' = PStr cid) logs"

definition datetimes :: "row list \<Rightarrow> string list" where
  "datetimes rows =
     concat (map (\<lambda>row. case dict_get row ''datetime_utc'' of
                              PNone \<Rightarrow> []
                            | PStr d \<Rightarrow> if d = [] then [] else [d]) rows)"

definition list_conversations :: "subprocess_run \<Rightarrow> row list json_loads \<Rightarrow> int \<Rightarrow> error + conv list" where
  "list_conversations run loads limit =
     run_and_load run loads [''llm'', ''logs'', ''list'', ''-n'', ''0'', ''--json'']
       ''Failed to list conversations: ''
       (\<lambda>logs. Inr (conversations_of logs limit))
       (Inr [])"

section \<open>Command builder\<close>

record PromptRequest =
  prompt :: string
  model :: "string option"
  system :: "string option"
  attachments :: "string list option"
  attachment_types :: "string list list option"
  template :: "string option"
  options :: "(string \<times> json) list option"
  tools :: "string list option"
  stream :: bool
  reasoning :: "(string \<times> json) list option"
  extra_args :: "string option"

record ChatMessage =
  message :: string
  model :: "string option"
  conversation_id :: "string option"
  system :: "string option"
  tools :: "string list option"
  options :: "(string \<times> json) list option"
  reasoning :: "(string \<times> json) list option"
  extra_args :: "string option"

text \<open>
  An option mapping is a dictionary with string keys: a list of entries in the order of
  the dictionary, the keys distinct. \<^verbatim>\<open>str\<close> of a value, \<^verbatim>\<open>json.dumps\<close> and
  \<^verbatim>\<open>shlex.split\<close> are the library's.
\<close>

type_synonym py_str = "json \<Rightarrow> string"
type_synonym json_dumps = "(string \<times> json) list \<Rightarrow> string + string"
type_synonym shlex_split = "string \<Rightarrow> string + string list"

text \<open>\<^verbatim>\<open>if value: cmd.extend([flag, value])\<close> for an optional string.\<close>

definition extend_flag :: "string \<Rightarrow> string option \<Rightarrow> string list \<Rightarrow> string list" where
  "extend_flag flag v cmd =
     (case v of
        None \<Rightarrow> cmd
      | Some s \<Rightarrow> if s = [] then cmd else cmd @ [flag, s])"

text \<open>\<^verbatim>\<open>if tools: for tool in tools: cmd.extend(["-T", tool])\<close>, and the same loop for
  \<^verbatim>\<open>-a\<close>.\<close>

definition extend_each :: "string \<Rightarrow> string list option \<Rightarrow> string list \<Rightarrow> string list" where
  "extend_each flag vs cmd =
     (case vs of
        None \<Rightarrow> cmd
      | Some xs \<Rightarrow> if xs = [] then cmd else fold (\<lambda>x cmd. cmd @ [flag, x]) xs cmd)"

text \<open>The nested function \<^verbatim>\<open>add_options\<close> of \<^verbatim>\<open>execute_prompt\<close> and the one of
  \<^verbatim>\<open>chat_message\<close>; \<^verbatim>\<open>str(key)\<close> of a string key is the key.\<close>

definition execute_prompt_add_options ::
  "py_str \<Rightarrow> (string \<times> json) list option \<Rightarrow> string list \<Rightarrow> string list" where
  "execute_prompt_add_options str_of opts cmd =
     (case opts of
        None \<Rightarrow> cmd
      | Some entries \<Rightarrow>
          if entries = [] then cmd
          else fold (\<lambda>(key, v) cmd. cmd @ [''-o'', key, str_of v]) entries cmd)"

definition chat_message_add_options ::
  "py_str \<Rightarrow> (string \<times> json) list option \<Rightarrow> string list \<Rightarrow> string list" where
  "chat_message_add_options str_of opts cmd =
     (case opts of
        None \<Rightarrow> cmd
      | Some entries \<Rightarrow>
          if entries = [] then cmd
          else fold (\<lambda>(key, v) cmd. cmd @ [''-o'', key, str_of v]) entries cmd)"

text \<open>
  \<^verbatim>\<open>
  if request.reasoning:
      try:
          cmd.extend(["-o", "reasoning", json.dumps(request.reasoning)])
      except Exception:
          add_options(request.reasoning)
  \<close>
  The argument of \<^verbatim>\<open>extend\<close> is evaluated first: when \<^verbatim>\<open>json.dumps\<close> raises, \<^verbatim>\<open>cmd\<close>
  is as it was.
\<close>

definition extend_reasoning ::
  "json_dumps \<Rightarrow> ((string \<times> json) list option \<Rightarrow> string list \<Rightarrow> string list)
     \<Rightarrow> (string \<times> json) list option \<Rightarrow> string list \<Rightarrow> string list" where
  "extend_reasoning dumps add_options r cmd =
     (case r of
        None \<Rightarrow> cmd
      | Some entries \<Rightarrow>
          if entries = [] then cmd
          else (case dumps entries of
                  Inr encoded \<Rightarrow> cmd @ [''-o'', ''reasoning'', encoded]
                | Inl e \<Rightarrow> add_options r cmd))"

text \<open>\<^verbatim>\<open>for path, mimetype in request.attachment_types: cmd.extend(["--at", path, mimetype])\<close>:
  unpacking an entry that has not two items raises \<^verbatim>\<open>ValueError\<close>, which nothing
  catches.\<close>

fun extend_attachment_types :: "string list list \<Rightarrow> string list \<Rightarrow> error + string list" where
  "extend_attachment_types [] cmd = Inr cmd"
| "extend_attachment_types ([path, mimetype] # rest) cmd =
     extend_attachment_types rest (cmd @ [''--at'', path, mimetype])"
| "extend_attachment_types (entry # rest) cmd = Inl ValueError"

text \<open>
  \<^verbatim>\<open>
  if request.extra_args:
      try:
          cmd.extend(shlex.split(request.extra_args))
      except Exception:
          pass
  \<close>
\<close>

definition extend_extra_args :: "shlex_split \<Rightarrow> string option \<Rightarrow> string list \<Rightarrow> string list" where
  "extend_extra_args split extra cmd =
     (case extra of
        None \<Rightarrow> cmd
      | Some s \<Rightarrow>
          if s = [] then cmd
          else (case split s of
                  Inr tokens \<Rightarrow> cmd @ tokens
                | Inl e \<Rightarrow> cmd))"

text \<open>The argument vector \<^verbatim>\<open>execute_prompt\<close> builds, statement by statement.\<close>

definition execute_prompt_cmd ::
  "py_str \<Rightarrow> json_dumps \<Rightarrow> shlex_split \<Rightarrow> PromptRequest \<Rightarrow> error + string list" where
  "execute_prompt_cmd str_of dumps split request =
     (let cmd = [''llm'', ''prompt''];
          cmd = extend_flag ''-m'' (PromptRequest.model request) cmd;
          cmd = extend_flag ''-s'' (PromptRequest.system request) cmd;
          cmd = extend_flag ''-t'' (template request) cmd;
          cmd = extend_each ''-T'' (PromptRequest.tools request) cmd;
          cmd = execute_prompt_add_options str_of (PromptRequest.options request) cmd;
          cmd = extend_reasoning dumps (execute_prompt_add_options str_of)
                  (PromptRequest.reasoning request) cmd;
          cmd = extend_each ''-a'' (attachments request) cmd
      in case (case attachment_types request of
                 None \<Rightarrow> Inr cmd
               | Some ats \<Rightarrow> if ats = [] then Inr cmd else extend_attachment_types ats cmd) of
           Inl e \<Rightarrow> Inl e
         | Inr cmd \<Rightarrow>
             Inr (extend_extra_args split (PromptRequest.extra_args request) cmd @ [prompt request]))"

text \<open>The argument vector \<^verbatim>\<open>chat_message\<close> builds.\<close>

definition chat_message_cmd ::
  "py_str \<Rightarrow> json_dumps \<Rightarrow> shlex_split \<Rightarrow> ChatMessage \<Rightarrow> string list" where
  "chat_message_cmd str_of dumps split msg =
     (let cmd = [''llm'', ''chat''];
          cmd = extend_flag ''-m'' (ChatMessage.model msg) cmd;
          cmd = extend_flag ''--cid'' (ChatMessage.conversation_id msg) cmd;
          cmd = extend_flag ''-s'' (ChatMessage.system msg) cmd;
          cmd = extend_each ''-T'' (ChatMessage.tools msg) cmd;
          cmd = chat_message_add_options str_of (ChatMessage.options msg) cmd;
          cmd = extend_reasoning dumps (chat_message_add_options str_of)
                  (ChatMessage.reasoning msg) cmd
      in extend_extra_args split (ChatMessage.extra_args msg) cmd)"


section \<open>Process runner and streamer\<close>

text \<open>
  What a child process started by \<^verbatim>\<open>asyncio.create_subprocess_exec\<close> shows to the
  server: the results of the successive calls of \<^verbatim>\<open>process.stdout.readline()\<close> (past
  the end of the list, and at an empty line, the stream is at its end:
  \<^verbatim>\<open>readline\<close> returns \<^verbatim>\<open>b''\<close>), the result of \<^verbatim>\<open>process.stdin.drain()\<close>, the
  return code \<^verbatim>\<open>process.wait()\<close> leaves and the result of \<^verbatim>\<open>process.stderr.read()\<close>.
  Every call may raise instead (\<open>Inl\<close>). Bytes are a \<open>string\<close>;
  \<^verbatim>\<open>bytes.decode('utf-8')\<close> raises on bytes that are no UTF-8.
\<close>

record process =
  stdout_readline :: "(string + string) list"
  stdin_drain :: "string + unit"
  wait :: "string + int"
  stderr_read :: "string + string"

type_synonym create_subprocess_exec = "string list \<Rightarrow> string + process"
type_synonym decode = "string \<Rightarrow> string + string"

text \<open>The chunk \<^verbatim>\<open>f"\nError: {text}"\<close>.\<close>

definition error_chunk :: "string \<Rightarrow> string" where
  "error_chunk text = ''\<newline>Error: '' @ text"

text \<open>
  \<^verbatim>\<open>
  while True:
      line = await process.stdout.readline()
      if not line:
          break
      yield line.decode('utf-8')
  \<close>
  The loop returns the chunks it yields and the exception that ended it, if one did.
\<close>

fun read_lines :: "decode \<Rightarrow> (string + string) list \<Rightarrow> string list \<times> string option" where
  "read_lines decode [] = ([], None)"
| "read_lines decode (Inl e # rest) = ([], Some e)"
| "read_lines decode (Inr line # rest) =
     (if line = [] then ([], None)
      else (case decode line of
              Inl e \<Rightarrow> ([], Some e)
            | Inr text \<Rightarrow>
                (let (chunks, raised) = read_lines decode rest in (text # chunks, raised))))"

text \<open>
  What follows the loop, in both generators:
  \<^verbatim>\<open>
  await process.wait()
  if process.returncode != 0:
      stderr = await process.stderr.read()
      yield f"\nError: {stderr.decode('utf-8')}"
  \<close>
  within \<^verbatim>\<open>try: ... except Exception as e: yield f"\nError: {str(e)}"\<close>.
\<close>

definition drain_output :: "decode \<Rightarrow> process \<Rightarrow> string list" where
  "drain_output decode p =
     (case read_lines decode (stdout_readline p) of
        (chunks, Some e) \<Rightarrow> chunks @ [error_chunk e]
      | (chunks, None) \<Rightarrow>
          (case wait p of
             Inl e \<Rightarrow> chunks @ [error_chunk e]
           | Inr rc \<Rightarrow>
               if rc \<noteq> 0 then
                 (case stderr_read p of
                    Inl e \<Rightarrow> chunks @ [error_chunk e]
                  | Inr err \<Rightarrow>
                      (case decode err of
                         Inl e \<Rightarrow> chunks @ [error_chunk e]
                       | Inr text \<Rightarrow> chunks @ [error_chunk text]))
               else chunks))"

definition stream_llm_response :: "create_subprocess_exec \<Rightarrow> decode \<Rightarrow> string list \<Rightarrow> string list" where
  "stream_llm_response spawn decode cmd =
     (case spawn cmd of
        Inl e \<Rightarrow> [error_chunk e]
      | Inr p \<Rightarrow> drain_output decode p)"

text \<open>
  The chat generator first writes to the child's standard input:
  \<^verbatim>\<open>
  process.stdin.write((message + '\n').encode('utf-8'))
  await process.stdin.drain()
  process.stdin.close()
  \<close>
  It returns the chunks and what it did to the standard input of the child.
\<close>

datatype stdin_op = Write string | Close

definition stream_llm_chat_response ::
  "create_subprocess_exec \<Rightarrow> decode \<Rightarrow> string list \<Rightarrow> string \<Rightarrow> string list \<times> stdin_op list" where
  "stream_llm_chat_response spawn decode cmd msg =
     (case spawn cmd of
        Inl e \<Rightarrow> ([error_chunk e], [])
      | Inr p \<Rightarrow>
          (case stdin_drain p of
             Inl e \<Rightarrow> ([error_chunk e], [Write (msg @ ''\<newline>'')])
           | Inr u \<Rightarrow> (drain_output decode p, [Write (msg @ ''\<newline>''), Close])))"

section \<open>The prompt and chat handlers\<close>

datatype response =
    StreamingResponse "string list"  \<comment> \<open>the chunks of the body\<close>
  | JSONResponse json

definition execute_prompt ::
  "py_str \<Rightarrow> json_dumps \<Rightarrow> shlex_split \<Rightarrow> create_subprocess_exec \<Rightarrow> decode \<Rightarrow> subprocess_run
     \<Rightarrow> PromptRequest \<Rightarrow> error + response" where
  "execute_prompt str_of dumps split spawn decode run request =
     (case execute_prompt_cmd str_of dumps split request of
        Inl e \<Rightarrow> Inl e
      | Inr cmd \<Rightarrow>
          if stream request then Inr (StreamingResponse (stream_llm_response spawn decode cmd))
          else (case run cmd of
                  Inl e \<Rightarrow> Inl (Exception e)
                | Inr result \<Rightarrow>
                    if returncode result \<noteq> 0
                    then Inl (HTTPException 500 (''LLM command failed: '' @ stderr result))
                    else Inr (JSONResponse (JObject [(''response'', JString (stdout result))]))))"

text \<open>The response of \<^verbatim>\<open>chat_message\<close>, and what its generator did to the standard input
  of the child.\<close>

definition chat_message ::
  "py_str \<Rightarrow> json_dumps \<Rightarrow> shlex_split \<Rightarrow> create_subprocess_exec \<Rightarrow> decode
     \<Rightarrow> ChatMessage \<Rightarrow> response \<times> stdin_op list" where
  "chat_message str_of dumps split spawn decode msg =
     (let cmd = chat_message_cmd str_of dumps split msg;
          (chunks, ops) = stream_llm_chat_response spawn decode cmd (message msg)
      in (StreamingResponse chunks, ops))"

section \<open>Uploads\<close>

text \<open>
  \<^verbatim>\<open>
  try:
      with tempfile.NamedTemporaryFile(delete=False, suffix=f"_{file.filename}") as tmp:
          content = await file.read()
          tmp.write(content)
          tmp_path = tmp.name
      return {"filename": file.filename, "path": tmp_path, "size": len(content),
              "mimetype": file.content_type}
  except Exception as e:
      raise HTTPException(status_code=500, detail=f"File upload failed: {str(e)}")
  \<close>
  The file system is a map from paths to contents. \<^verbatim>\<open>NamedTemporaryFile\<close> picks the
  path of a new file with the suffix asked for, or raises; reading the upload and
  writing the file may raise too.
\<close>

record UploadFile =
  filename :: "string option"
  content_type :: "string option"
  read :: "string + string"

type_synonym files = "string \<rightharpoonup> string"
type_synonym named_temporary_file = "files \<Rightarrow> string \<Rightarrow> string + string"
type_synonym file_write = "string \<Rightarrow> string \<Rightarrow> string + unit"

text \<open>An optional string in an f-string, and in a JSON body.\<close>

definition format_optional :: "string option \<Rightarrow> string" where
  "format_optional v = (case v of None \<Rightarrow> ''None'' | Some s \<Rightarrow> s)"

definition json_optional :: "string option \<Rightarrow> json" where
  "json_optional v = (case v of None \<Rightarrow> JNull | Some s \<Rightarrow> JString s)"

definition upload_file ::
  "named_temporary_file \<Rightarrow> file_write \<Rightarrow> UploadFile \<Rightarrow> files \<Rightarrow> (error + json) \<times> files" where
  "upload_file mktemp write file fs =
     (case mktemp fs (CHR ''_'' # format_optional (filename file)) of
        Inl e \<Rightarrow> (Inl (HTTPException 500 (''File upload failed: '' @ e)), fs)
      | Inr tmp_path \<Rightarrow>
          (let fs = fs(tmp_path \<mapsto> []) in
           case read file of
             Inl e \<Rightarrow> (Inl (HTTPException 500 (''File upload failed: '' @ e)), fs)
           | Inr content \<Rightarrow>
               (case write tmp_path content of
                  Inl e \<Rightarrow> (Inl (HTTPException 500 (''File upload failed: '' @ e)), fs)
                | Inr u \<Rightarrow>
                    (Inr (JObject [(''filename'', json_optional (filename file)),
                                   (''path'', JString tmp_path),
                                   (''size'', JInt (int (length content))),
                                   (''mimetype'', json_optional (content_type file))]),
                     fs(tmp_path \<mapsto> content)))))"

definition upload_clipboard_image ::
  "named_temporary_file \<Rightarrow> file_write \<Rightarrow> UploadFile \<Rightarrow> files \<Rightarrow> (error + json) \<times> files" where
  "upload_clipboard_image mktemp write file fs = upload_file mktemp write file fs"


section \<open>Notions used to state the properties\<close>

subsection \<open>What a conversation summary holds\<close>

text \<open>
  \<open>summarises c rows\<close>: \<open>c\<close> counts the rows; when a row has a non-empty timestamp,
  \<open>latest\<close> is the greatest of them and \<open>model\<close> and \<open>last_prompt\<close> are those of the first
  row that carries it; when none has, the three are those of the first row.
\<close>

definition summarises :: "conv \<Rightarrow> row list \<Rightarrow> bool" where
  "summarises c rows \<longleftrightarrow>
     (case rows of
        [] \<Rightarrow> False
      | first # others \<Rightarrow>
          count c = int (length rows) \<and>
          (case datetimes rows of
             [] \<Rightarrow>
               latest c = dict_get first ''datetime_utc'' \<and>
               conv.model c = dict_get first ''model'' \<and>
               last_prompt c = dict_get_default first ''prompt'' (PStr [])
           | d # ds \<Rightarrow>
               latest c = PStr (Max (set (d # ds))) \<and>
               (case find (\<lambda>row. dict_get row ''datetime_utc'' = latest c) rows of
                  None \<Rightarrow> False
                | Some row \<Rightarrow>
                    conv.model c = dict_get row ''model'' \<and>
                    last_prompt c = dict_get_default row ''prompt'' (PStr []))))"

text \<open>The rows of the example: two of conversation \<open>a\<close>, one of conversation \<open>b\<close>.\<close>

definition example_rows :: "row list" where
  "example_rows =
     [[''conversation_id'' \<mapsto> PStr ''a'', ''datetime_utc'' \<mapsto> PStr ''2024-01-01''],
      [''conversation_id'' \<mapsto> PStr ''a'', ''datetime_utc'' \<mapsto> PStr ''2024-01-02''],
      [''conversation_id'' \<mapsto> PStr ''b'', ''datetime_utc'' \<mapsto> PStr ''2024-01-01'']]"

text \<open>The two halves of the loop body: the summary a new conversation starts with, and
  what a row does to the summary of its conversation.\<close>

definition first_summary :: "string \<Rightarrow> row \<Rightarrow> conv" where
  "first_summary cid row =
     \<lparr>conv.conversation_id = cid, latest = dict_get row ''datetime_utc'',
      conv.model = dict_get row ''model'', count = 0,
      last_prompt = dict_get_default row ''prompt'' (PStr [])\<rparr>"

definition touch :: "row \<Rightarrow> conv \<Rightarrow> conv" where
  "touch row c =
     (if is_later (dict_get row ''datetime_utc'') (latest c)
      then c\<lparr>count := count c + 1, latest := dict_get row ''datetime_utc'',
             last_prompt := dict_get_default row ''prompt'' (PStr []),
             conv.model := dict_get row ''model''\<rparr>
      else c\<lparr>count := count c + 1\<rparr>)"

text \<open>The invariant of the loop over the rows read so far.\<close>

definition grouped :: "(string \<times> conv) list \<Rightarrow> row list \<Rightarrow> bool" where
  "grouped convs logs \<longleftrightarrow>
     distinct (map fst convs) \<and>
     (\<forall>cid. cid \<in> fst ` set convs \<longleftrightarrow> cid \<noteq> [] \<and> rows_of cid logs \<noteq> []) \<and>
     (\<forall>cid c. (cid, c) \<in> set convs \<longrightarrow>
        conv.conversation_id c = cid \<and> summarises c (rows_of cid logs))"

subsection \<open>The flag grammar of the command line\<close>

text \<open>
  The tokens each field of a request stands for, field by field:
  an optional string gives \<open>flag value\<close> unless absent or empty; a list gives
  \<open>flag item\<close> for each item; an option mapping gives \<open>-o key value\<close> for each entry;
  a reasoning mapping gives \<open>-o reasoning json\<close>, or its entries as options when it
  cannot be encoded; a pair gives \<open>--at path mimetype\<close>; the extra flags give their
  words, or nothing when they cannot be split.
\<close>

definition items :: "'a list option \<Rightarrow> 'a list" where
  "items v = (case v of None \<Rightarrow> [] | Some xs \<Rightarrow> xs)"

definition optional_flag :: "string \<Rightarrow> string option \<Rightarrow> string list" where
  "optional_flag flag v = (case v of None \<Rightarrow> [] | Some s \<Rightarrow> if s = [] then [] else [flag, s])"

definition repeated_flag :: "string \<Rightarrow> string list option \<Rightarrow> string list" where
  "repeated_flag flag vs = concat (map (\<lambda>x. [flag, x]) (items vs))"

definition option_flags :: "py_str \<Rightarrow> (string \<times> json) list option \<Rightarrow> string list" where
  "option_flags str_of opts = concat (map (\<lambda>(key, v). [''-o'', key, str_of v]) (items opts))"

definition reasoning_flags ::
  "json_dumps \<Rightarrow> py_str \<Rightarrow> (string \<times> json) list option \<Rightarrow> string list" where
  "reasoning_flags dumps str_of r =
     (if items r = [] then []
      else (case dumps (items r) of
              Inr encoded \<Rightarrow> [''-o'', ''reasoning'', encoded]
            | Inl e \<Rightarrow> option_flags str_of r))"

definition attachment_type_flags :: "string list list option \<Rightarrow> string list" where
  "attachment_type_flags ats =
     concat (map (\<lambda>entry. case entry of [path, mimetype] \<Rightarrow> [''--at'', path, mimetype] | _ \<Rightarrow> [])
              (items ats))"

definition extra_tokens :: "shlex_split \<Rightarrow> string option \<Rightarrow> string list" where
  "extra_tokens split extra =
     (case extra of
        None \<Rightarrow> []
      | Some s \<Rightarrow> if s = [] then [] else (case split s of Inr tokens \<Rightarrow> tokens | Inl e \<Rightarrow> []))"

text \<open>The flags of a prompt request that precede its attachments, and the flags of a
  chat message.\<close>

definition prompt_flags :: "py_str \<Rightarrow> json_dumps \<Rightarrow> PromptRequest \<Rightarrow> string list" where
  "prompt_flags str_of dumps request =
     optional_flag ''-m'' (PromptRequest.model request)
     @ optional_flag ''-s'' (PromptRequest.system request)
     @ optional_flag ''-t'' (template request)
     @ repeated_flag ''-T'' (PromptRequest.tools request)
     @ option_flags str_of (PromptRequest.options request)
     @ reasoning_flags dumps str_of (PromptRequest.reasoning request)"

definition chat_flags :: "py_str \<Rightarrow> json_dumps \<Rightarrow> ChatMessage \<Rightarrow> string list" where
  "chat_flags str_of dumps msg =
     optional_flag ''-m'' (ChatMessage.model msg)
     @ optional_flag ''--cid'' (ChatMessage.conversation_id msg)
     @ optional_flag ''-s'' (ChatMessage.system msg)
     @ repeated_flag ''-T'' (ChatMessage.tools msg)
     @ option_flags str_of (ChatMessage.options msg)
     @ reasoning_flags dumps str_of (ChatMessage.reasoning msg)"

text \<open>A line the child wrote that \<^verbatim>\<open>readline\<close> returns and \<^verbatim>\<open>decode\<close> accepts.\<close>

definition decodes_to :: "decode \<Rightarrow> string \<Rightarrow> string \<Rightarrow> bool" where
  "decodes_to decode line text \<longleftrightarrow> line \<noteq> [] \<and> decode line = Inr text"

section \<open>Properties of the listing endpoints\<close>

lemma run_and_load_decode_error:
  "run cmd = Inr result \<Longrightarrow> returncode result = 0 \<Longrightarrow> loads (stdout result) = None \<Longrightarrow>
   run_and_load run loads cmd failed body on_decode_error = on_decode_error"
  by (simp add: run_and_load_def)

lemma run_and_load_loaded:
  "run cmd = Inr result \<Longrightarrow> returncode result = 0 \<Longrightarrow> loads (stdout result) = Some v \<Longrightarrow>
   run_and_load run loads cmd failed body on_decode_error = body v"
  by (simp add: run_and_load_def)

lemma run_and_load_failed:
  "run cmd = Inr result \<Longrightarrow> returncode result \<noteq> 0 \<Longrightarrow>
   run_and_load run loads cmd failed body on_decode_error
     = Inl (HTTPException 500 (failed @ stderr result))"
  by (simp add: run_and_load_def)

text \<open>
  Claim C1, as the code has it. When the external command exits with code 0 and its
  output is no JSON, the handlers of the tools, the logs, the conversations and of one
  conversation return their empty results: \<^verbatim>\<open>{"tools": []}\<close>, \<^verbatim>\<open>{"logs": []}\<close>, \<^verbatim>\<open>[]\<close>
  and \<^verbatim>\<open>[]\<close>. The handler of the models has no empty result: it raises
  \<^verbatim>\<open>HTTPException\<close> with status 500 and the detail "Failed to parse models response".
\<close>

theorem listing_parse_failure:
  assumes "\<And>cmd. \<exists>result. run cmd = Inr result \<and> returncode result = 0
              \<and> loads (stdout result) = None \<and> loads_rows (stdout result) = None"
  shows "get_tools run loads = Inr (JObject [(''tools'', JArray [])])
       \<and> get_logs run loads n = Inr (JObject [(''logs'', JArray [])])
       \<and> list_conversations run loads_rows limit = Inr []
       \<and> get_conversation run loads cid = Inr (JArray [])
       \<and> get_models run loads = Inl (HTTPException 500 ''Failed to parse models response'')"
proof -
  have json: "run_and_load run loads cmd failed body d = d"
    for cmd failed d and body :: "json \<Rightarrow> error + json"
    using assms [of cmd] by (auto simp: run_and_load_decode_error)
  have rows: "run_and_load run loads_rows cmd failed body d = d"
    for cmd failed d and body :: "row list \<Rightarrow> error + conv list"
    using assms [of cmd] by (auto simp: run_and_load_decode_error)
  show ?thesis
    by (simp only: get_tools_def get_logs_def list_conversations_def get_conversation_def
        get_models_def json rows)
qed

text \<open>The hypothesis of C1 holds of a command that prints \<^verbatim>\<open>not json\<close> and exits with
  code 0.\<close>

theorem listing_parse_failure_witness:
  "get_tools (\<lambda>cmd. Inr \<lparr>returncode = 0, stdout = ''not json'', stderr = []\<rparr>)
       (\<lambda>s. if s = ''[]'' then Some (JArray []) else None)
     = Inr (JObject [(''tools'', JArray [])])
   \<and> get_logs (\<lambda>cmd. Inr \<lparr>returncode = 0, stdout = ''not json'', stderr = []\<rparr>)
       (\<lambda>s. if s = ''[]'' then Some (JArray []) else None) 5
     = Inr (JObject [(''logs'', JArray [])])
   \<and> list_conversations (\<lambda>cmd. Inr \<lparr>returncode = 0, stdout = ''not json'', stderr = []\<rparr>)
       (\<lambda>s. if s = ''[]'' then Some [] else None) 50
     = Inr []
   \<and> get_conversation (\<lambda>cmd. Inr \<lparr>returncode = 0, stdout = ''not json'', stderr = []\<rparr>)
       (\<lambda>s. if s = ''[]'' then Some (JArray []) else None) ''01abc''
     = Inr (JArray [])"
proof -
  have "\<exists>result. (\<lambda>cmd. Inr \<lparr>returncode = 0, stdout = ''not json'', stderr = []\<rparr>) cmd = Inr result
          \<and> returncode result = 0
          \<and> (\<lambda>s. if s = ''[]'' then Some (JArray []) else None) (stdout result) = None
          \<and> (\<lambda>s. if s = ''[]'' then Some ([] :: row list) else None) (stdout result) = None"
    for cmd :: "string list"
    by simp
  from listing_parse_failure [OF this, of 5 50 "''01abc''"] show ?thesis by simp
qed

text \<open>
  Claim C1 as stated asks the same of the handler of the models. There, on the output
  \<^verbatim>\<open>not json\<close> of a command that exits with code 0, the parse failure is what the
  client sees, as an HTTP error 500.
\<close>

theorem get_models_parse_failure_counterexample:
  "get_models (\<lambda>cmd. Inr \<lparr>returncode = 0, stdout = ''not json'', stderr = []\<rparr>)
              (\<lambda>s. if s = ''[]'' then Some (JArray []) else None)
     = Inl (HTTPException 500 ''Failed to parse models response'')"
  by (simp add: get_models_def run_and_load_def)

section \<open>Properties of the conversation summaries\<close>

subsection \<open>One row\<close>

lemma add_row_skip:
  "dict_get row ''conversation_id'' = PNone \<or> dict_get row ''conversation_id'' = PStr [] \<Longrightarrow>
   add_row row convs = convs"
  by (auto simp: add_row_def)

lemma add_row_touch:
  assumes "dict_get row ''conversation_id'' = PStr cid" "cid \<noteq> []"
  shows "add_row row convs =
     (case map_of convs cid of
        None \<Rightarrow> convs @ [(cid, touch row (first_summary cid row))]
      | Some c \<Rightarrow> AList.update cid (touch row c) convs)"
proof (cases "map_of convs cid")
  case None
  then have "cid \<notin> fst ` set convs" by (simp add: map_of_eq_None_iff)
  then have "AList.update cid v (convs @ [(cid, w)]) = convs @ [(cid, v)]" for v w
    by (induction convs) auto
  with None assms show ?thesis
    by (simp add: add_row_def setdefault_def touch_def first_summary_def Let_def)
next
  case (Some c)
  with assms show ?thesis
    by (simp add: add_row_def setdefault_def touch_def Let_def)
qed


lemma datetimes_snoc:
  "datetimes (rows @ [row]) =
     datetimes rows @ (case dict_get row ''datetime_utc'' of
                         PNone \<Rightarrow> [] | PStr d \<Rightarrow> if d = [] then [] else [d])"
  by (simp add: datetimes_def)

lemma in_datetimes:
  "d \<in> set (datetimes rows) \<longleftrightarrow> d \<noteq> [] \<and> (\<exists>row \<in> set rows. dict_get row ''datetime_utc'' = PStr d)"
  by (induction rows) (auto simp: datetimes_def split: pyval.splits if_splits)

lemma find_snoc:
  "find P (xs @ [x]) = (case find P xs of None \<Rightarrow> (if P x then Some x else None) | Some y \<Rightarrow> Some y)"
  by (induction xs) auto

lemma find_None_snoc: "\<forall>y \<in> set xs. \<not> P y \<Longrightarrow> P x \<Longrightarrow> find P (xs @ [x]) = Some x"
  by (simp add: find_snoc find_None_iff[THEN iffD2] split: option.splits)

lemma Max_snoc: "xs \<noteq> [] \<Longrightarrow> Max (set (xs @ [x])) = max x (Max (set xs))"
  by simp

lemma summarises_iff:
  "summarises c rows \<longleftrightarrow>
     rows \<noteq> [] \<and> count c = int (length rows) \<and>
     (datetimes rows = [] \<longrightarrow>
        latest c = dict_get (hd rows) ''datetime_utc'' \<and>
        conv.model c = dict_get (hd rows) ''model'' \<and>
        last_prompt c = dict_get_default (hd rows) ''prompt'' (PStr [])) \<and>
     (datetimes rows \<noteq> [] \<longrightarrow>
        latest c = PStr (Max (set (datetimes rows))) \<and>
        (\<exists>row. find (\<lambda>row. dict_get row ''datetime_utc'' = latest c) rows = Some row \<and>
               conv.model c = dict_get row ''model'' \<and>
               last_prompt c = dict_get_default row ''prompt'' (PStr [])))"
proof (cases rows)
  case Nil
  then show ?thesis by (simp add: summarises_def)
next
  case (Cons first others)
  show ?thesis
  proof (cases "datetimes rows")
    case Nil
    with Cons show ?thesis by (simp add: summarises_def)
  next
    case dts: (Cons d ds)
    have "summarises c rows \<longleftrightarrow>
            count c = int (length rows) \<and> latest c = PStr (Max (set (datetimes rows))) \<and>
            (case find (\<lambda>row. dict_get row ''datetime_utc'' = latest c) rows of
               None \<Rightarrow> False
             | Some row \<Rightarrow> conv.model c = dict_get row ''model'' \<and>
                 last_prompt c = dict_get_default row ''prompt'' (PStr []))"
      unfolding summarises_def Cons list.case dts [unfolded Cons] by simp
    also have "\<dots> \<longleftrightarrow> count c = int (length rows) \<and> latest c = PStr (Max (set (datetimes rows))) \<and>
        (\<exists>row. find (\<lambda>row. dict_get row ''datetime_utc'' = latest c) rows = Some row \<and>
               conv.model c = dict_get row ''model'' \<and>
               last_prompt c = dict_get_default row ''prompt'' (PStr []))"
      by (cases "find (\<lambda>row. dict_get row ''datetime_utc'' = latest c) rows") simp_all
    finally show ?thesis using Cons dts by simp
  qed
qed

lemma summarises_first: "summarises (touch row (first_summary cid row)) [row]"
  by (cases "dict_get row ''datetime_utc''")
    (auto simp: summarises_iff touch_def first_summary_def datetimes_def)

lemma summarises_snoc:
  assumes "summarises c rows"
  shows "summarises (touch row c) (rows @ [row])"
proof -
  note c = assms [unfolded summarises_iff]
  from c have rows: "rows \<noteq> []" and cnt: "count c = int (length rows)"
    by simp_all
  have hd: "hd (rows @ [row]) = hd rows"
    using rows by simp
  show ?thesis
  proof (cases "datetimes rows")
    case Nil
    then have none: "\<And>d r. r \<in> set rows \<Longrightarrow> dict_get r ''datetime_utc'' = PStr d \<Longrightarrow> d = []"
      using in_datetimes [of _ rows] by (metis empty_iff list.set(1))
    from Nil c have lat: "latest c = dict_get (hd rows) ''datetime_utc''"
      and rest: "conv.model c = dict_get (hd rows) ''model''"
        "last_prompt c = dict_get_default (hd rows) ''prompt'' (PStr [])"
      by simp_all
    have falsy: "\<not> truthy (latest c)"
      using none [of "hd rows"] rows lat by (cases "dict_get (hd rows) ''datetime_utc''") auto
    show ?thesis
    proof (cases "truthy (dict_get row ''datetime_utc'')")
      case False
      then have "\<not> is_later (dict_get row ''datetime_utc'') (latest c)"
        by (cases "dict_get row ''datetime_utc''"; cases "latest c") auto
      moreover have "datetimes (rows @ [row]) = []"
        using False Nil by (cases "dict_get row ''datetime_utc''") (auto simp: datetimes_snoc)
      ultimately show ?thesis
        using cnt lat rest hd by (simp add: summarises_iff touch_def)
    next
      case True
      then obtain d where d: "dict_get row ''datetime_utc'' = PStr d" "d \<noteq> []"
        by (cases "dict_get row ''datetime_utc''") auto
      have later: "is_later (dict_get row ''datetime_utc'') (latest c)"
        using d falsy by (cases "latest c") auto
      have dts: "datetimes (rows @ [row]) = [d]"
        using d Nil by (simp add: datetimes_snoc)
      have "find (\<lambda>r. dict_get r ''datetime_utc'' = PStr d) (rows @ [row]) = Some row"
        using none d by (intro find_None_snoc) auto
      then show ?thesis
        using cnt later dts d by (simp add: summarises_iff touch_def)
    qed
  next
    case (Cons d0 ds)
    then have ne: "datetimes rows \<noteq> []" by simp
    define m where "m = Max (set (datetimes rows))"
    have m_in: "m \<in> set (datetimes rows)"
      unfolding m_def using Cons by (intro Max_in) auto
    then have m_ne: "m \<noteq> []" by (simp add: in_datetimes)
    from Cons c have lat: "latest c = PStr m"
      by (simp add: m_def)
    from Cons c lat obtain r0 where
      r0: "find (\<lambda>r. dict_get r ''datetime_utc'' = PStr m) rows = Some r0"
        "conv.model c = dict_get r0 ''model''"
        "last_prompt c = dict_get_default r0 ''prompt'' (PStr [])"
      by auto
    show ?thesis
    proof (cases "is_later (dict_get row ''datetime_utc'') (latest c)")
      case True
      then obtain d where d: "dict_get row ''datetime_utc'' = PStr d" "d \<noteq> []" "m < d"
        using lat m_ne by (cases "dict_get row ''datetime_utc''") auto
      have dts: "datetimes (rows @ [row]) = datetimes rows @ [d]"
        using d by (simp add: datetimes_snoc)
      have "Max (set (datetimes rows @ [d])) = max d m"
        unfolding m_def using ne by (rule Max_snoc)
      then have mx: "Max (set (datetimes rows @ [d])) = d"
        using d(3) by (simp add: max_absorb1 less_imp_le)
      have "d \<notin> set (datetimes rows)"
        using d(3) unfolding m_def by (metis List.finite_set Max_ge leD)
      then have "\<forall>r \<in> set rows. dict_get r ''datetime_utc'' \<noteq> PStr d"
        using d(2) by (auto simp: in_datetimes)
      then have "find (\<lambda>r. dict_get r ''datetime_utc'' = PStr d) (rows @ [row]) = Some row"
        using d by (intro find_None_snoc) auto
      then show ?thesis
        using True cnt d dts mx
        by (simp add: summarises_iff touch_def)
    next
      case False
      have dts: "Max (set (datetimes (rows @ [row]))) = m \<and> datetimes (rows @ [row]) \<noteq> []"
      proof (cases "dict_get row ''datetime_utc''")
        case PNone
        then show ?thesis using Cons by (simp add: datetimes_snoc m_def)
      next
        case (PStr d)
        show ?thesis
        proof (cases "d = []")
          case True
          then show ?thesis using PStr Cons by (simp add: datetimes_snoc m_def)
        next
          case nonempty: False
          then have "d \<le> m" using False PStr lat m_ne by (simp add: not_less)
          moreover have "datetimes (rows @ [row]) = datetimes rows @ [d]"
            using PStr nonempty by (simp add: datetimes_snoc)
          moreover have "Max (set (datetimes rows @ [d])) = max d m"
            unfolding m_def using ne by (rule Max_snoc)
          ultimately show ?thesis
            by (simp add: max_absorb2)
        qed
      qed
      have "find (\<lambda>r. dict_get r ''datetime_utc'' = PStr m) (rows @ [row]) = Some r0"
        using r0(1) by (simp add: find_snoc)
      then show ?thesis
        using False cnt lat r0 dts
        by (simp add: summarises_iff touch_def)
    qed
  qed
qed


lemma touch_conversation_id [simp]: "conv.conversation_id (touch row c) = conv.conversation_id c"
  by (simp add: touch_def)

lemma rows_of_snoc:
  "rows_of cid (logs @ [row]) =
     (if dict_get row ''conversation_id'' = PStr cid then rows_of cid logs @ [row] else rows_of cid logs)"
  by (simp add: rows_of_def)

lemma group_rows_snoc: "group_rows (logs @ [row]) = add_row row (group_rows logs)"
  by (simp add: group_rows_def)

lemma grouped_add_row:
  assumes "grouped convs logs"
  shows "grouped (add_row row convs) (logs @ [row])"
proof (cases "\<exists>cid. dict_get row ''conversation_id'' = PStr cid \<and> cid \<noteq> []")
  case False
  then have skip: "add_row row convs = convs"
    by (cases "dict_get row ''conversation_id''") (auto simp: add_row_skip)
  have "rows_of cid (logs @ [row]) = rows_of cid logs" if "cid \<noteq> []" for cid
    using False that by (auto simp: rows_of_snoc)
  moreover have "cid \<noteq> []" if "(cid, c) \<in> set convs" for cid c
    using assms that unfolding grouped_def by (metis fst_conv image_eqI)
  ultimately show ?thesis
    using assms unfolding skip grouped_def by (metis (no_types, lifting))
next
  case True
  then obtain k where k: "dict_get row ''conversation_id'' = PStr k" "k \<noteq> []"
    by blast
  have other: "rows_of cid (logs @ [row]) = rows_of cid logs" if "cid \<noteq> k" for cid
    using k that by (simp add: rows_of_snoc)
  have mine: "rows_of k (logs @ [row]) = rows_of k logs @ [row]"
    using k by (simp add: rows_of_snoc)
  from assms have dist: "distinct (map fst convs)"
    and keys: "\<And>cid. cid \<in> fst ` set convs \<longleftrightarrow> cid \<noteq> [] \<and> rows_of cid logs \<noteq> []"
    and vals: "\<And>cid c. (cid, c) \<in> set convs \<Longrightarrow>
        conv.conversation_id c = cid \<and> summarises c (rows_of cid logs)"
    unfolding grouped_def by blast+
  show ?thesis
  proof (cases "map_of convs k")
    case None
    then have new: "k \<notin> fst ` set convs"
      by (simp add: map_of_eq_None_iff)
    then have empty: "rows_of k logs = []"
      using keys k by blast
    have eq: "add_row row convs = convs @ [(k, touch row (first_summary k row))]"
      using k None by (simp add: add_row_touch)
    have "distinct (map fst (add_row row convs))"
      using dist new unfolding eq by (simp add: image_iff)
    moreover have "cid \<in> fst ` set (add_row row convs)
        \<longleftrightarrow> cid \<noteq> [] \<and> rows_of cid (logs @ [row]) \<noteq> []" for cid
      using keys [of cid] k other [of cid] mine unfolding eq by (cases "cid = k") auto
    moreover have "conv.conversation_id c = cid \<and> summarises c (rows_of cid (logs @ [row]))"
      if "(cid, c) \<in> set (add_row row convs)" for cid c
    proof (cases "cid = k")
      case True
      with that new have "c = touch row (first_summary k row)"
        unfolding eq by (auto simp: image_iff)
      then show ?thesis
        using True mine empty summarises_first [of row k]
        by (simp add: first_summary_def)
    next
      case False
      with that have "(cid, c) \<in> set convs" unfolding eq by simp
      then show ?thesis using vals other False by simp
    qed
    ultimately show ?thesis unfolding grouped_def by blast
  next
    case (Some c0)
    then have old: "(k, c0) \<in> set convs"
      by (rule map_of_SomeD)
    have eq: "add_row row convs = AList.update k (touch row c0) convs"
      using k Some by (simp add: add_row_touch)
    have mem: "(cid, c) \<in> set (add_row row convs)
        \<longleftrightarrow> (if cid = k then c = touch row c0 else (cid, c) \<in> set convs)" for cid c
    proof -
      have "distinct (map fst (add_row row convs))"
        unfolding eq using dist by (rule distinct_update)
      then have "(cid, c) \<in> set (add_row row convs) \<longleftrightarrow> map_of (add_row row convs) cid = Some c"
        by simp
      also have "\<dots> \<longleftrightarrow> (if cid = k then c = touch row c0 else map_of convs cid = Some c)"
        unfolding eq by (auto simp: update_conv')
      finally show ?thesis using dist by simp
    qed
    have "distinct (map fst (add_row row convs))"
      unfolding eq using dist by (rule distinct_update)
    moreover have "cid \<in> fst ` set (add_row row convs)
        \<longleftrightarrow> cid \<noteq> [] \<and> rows_of cid (logs @ [row]) \<noteq> []" for cid
      using keys [of cid] k other [of cid] mine old unfolding eq
      by (cases "cid = k") (auto simp: dom_update image_iff)
    moreover have "conv.conversation_id c = cid \<and> summarises c (rows_of cid (logs @ [row]))"
      if "(cid, c) \<in> set (add_row row convs)" for cid c
    proof (cases "cid = k")
      case True
      with that have "c = touch row c0" by (simp add: mem)
      then show ?thesis
        using True mine vals [OF old] summarises_snoc [of c0 "rows_of k logs" row] by simp
    next
      case False
      with that have "(cid, c) \<in> set convs" by (simp add: mem)
      then show ?thesis using vals other False by simp
    qed
    ultimately show ?thesis unfolding grouped_def by blast
  qed
qed

lemma grouped_group_rows: "grouped (group_rows logs) logs"
proof (induction logs rule: rev_induct)
  case Nil
  show ?case by (simp add: grouped_def group_rows_def rows_of_def)
next
  case (snoc row logs)
  then show ?case by (simp add: group_rows_snoc grouped_add_row)
qed

subsection \<open>Sorting and truncating\<close>

lemma distinct_map_insort_key:
  "distinct (map f (insort_key k x xs)) \<longleftrightarrow> f x \<notin> f ` set xs \<and> distinct (map f xs)"
  by (induction xs) (auto simp: set_insort_key)

lemma distinct_map_sort_key: "distinct (map f (sort_key k xs)) \<longleftrightarrow> distinct (map f xs)"
  by (induction xs) (simp_all add: distinct_map_insort_key)

lemma set_sorted_reverse [simp]: "set (sorted_reverse key xs) = set xs"
  by (simp add: sorted_reverse_def)

lemma length_sorted_reverse [simp]: "length (sorted_reverse key xs) = length xs"
  by (simp add: sorted_reverse_def)

lemma distinct_map_sorted_reverse:
  "distinct (map f (sorted_reverse key xs)) \<longleftrightarrow> distinct (map f xs)"
proof -
  have "distinct (map f (rev (sort_key key (rev xs)))) \<longleftrightarrow> distinct (rev (map f (sort_key key (rev xs))))"
    by (simp only: rev_map)
  also have "\<dots> \<longleftrightarrow> distinct (map f (rev xs))"
    by (simp only: distinct_rev distinct_map_sort_key)
  also have "\<dots> \<longleftrightarrow> distinct (map f xs)"
    by (simp only: rev_map [symmetric] distinct_rev)
  finally show ?thesis by (simp only: sorted_reverse_def)
qed

lemma sorted_reverse_descending:
  "sorted_wrt (\<lambda>a b. key b \<le> key a) (sorted_reverse key xs)"
proof -
  have "sorted (map key (sort_key key (rev xs)))" by simp
  then have "sorted_wrt (\<lambda>a b. key a \<le> key b) (sort_key key (rev xs))"
    by (simp add: sorted_map)
  then show ?thesis
    by (simp add: sorted_reverse_def sorted_wrt_rev)
qed

lemma slice_to_descending:
  "sorted_wrt P xs \<Longrightarrow> sorted_wrt P (slice_to xs limit)"
  by (simp add: slice_to_def sorted_wrt_take)

lemma conv_list_ids: "map conv.conversation_id (map snd (group_rows logs)) = map fst (group_rows logs)"
  using grouped_group_rows [of logs] by (auto simp: grouped_def)

lemma list_conversations_loaded:
  "run [''llm'', ''logs'', ''list'', ''-n'', ''0'', ''--json''] = Inr result \<Longrightarrow> returncode result = 0 \<Longrightarrow>
   loads (stdout result) = Some logs \<Longrightarrow>
   list_conversations run loads limit = Inr (conversations_of logs limit)"
  by (simp add: list_conversations_def run_and_load_loaded)

lemma conv_list_example:
  "conv_list example_rows
     = [\<lparr>conv.conversation_id = ''a'', latest = PStr ''2024-01-02'', conv.model = PNone,
         count = 2, last_prompt = PStr []\<rparr>,
        \<lparr>conv.conversation_id = ''b'', latest = PStr ''2024-01-01'', conv.model = PNone,
         count = 1, last_prompt = PStr []\<rparr>]"
  by (simp add: conv_list_def group_rows_def add_row_def setdefault_def
      dict_get_def dict_get_default_def sorted_reverse_def example_rows_def)

text \<open>
  Claim C2. The rows that carry a conversation id are grouped by it, one summary for each
  id. The count of a summary is the number of rows with its id; its \<open>latest\<close> is the
  greatest timestamp among these rows, in the order of strings, with the prompt and the
  model of the row that carries it (the first such row; and the values of the first row
  of the group when no row of it has a timestamp). The list returned is in descending
  order of \<open>latest\<close> and, for a limit that is not negative, it is the first \<open>limit\<close>
  summaries of the sorted list. For the three rows of the example the result is the
  summary of \<open>a\<close>, with count 2 and latest 2024-01-02, before the summary of \<open>b\<close>.
\<close>

theorem conversations_grouped:
  assumes "0 \<le> limit"
  shows "sorted_wrt (\<lambda>a b. latest_key b \<le> latest_key a) (conv_list logs)
   \<and> distinct (map conv.conversation_id (conv_list logs))
   \<and> set (map conv.conversation_id (conv_list logs)) = {cid. cid \<noteq> [] \<and> rows_of cid logs \<noteq> []}
   \<and> (\<forall>c \<in> set (conv_list logs). summarises c (rows_of (conv.conversation_id c) logs))
   \<and> conversations_of logs limit = take (nat limit) (conv_list logs)
   \<and> length (conversations_of logs limit) \<le> nat limit
   \<and> sorted_wrt (\<lambda>a b. latest_key b \<le> latest_key a) (conversations_of logs limit)
   \<and> conversations_of example_rows 50 =
        [\<lparr>conv.conversation_id = ''a'', latest = PStr ''2024-01-02'', conv.model = PNone,
          count = 2, last_prompt = PStr []\<rparr>,
         \<lparr>conv.conversation_id = ''b'', latest = PStr ''2024-01-01'', conv.model = PNone,
          count = 1, last_prompt = PStr []\<rparr>]"
proof -
  have g1: "distinct (map fst (group_rows logs))"
    and g2: "\<And>cid. cid \<in> fst ` set (group_rows logs) \<longleftrightarrow> cid \<noteq> [] \<and> rows_of cid logs \<noteq> []"
    and g3: "\<And>cid c. (cid, c) \<in> set (group_rows logs) \<Longrightarrow>
               conv.conversation_id c = cid \<and> summarises c (rows_of cid logs)"
    using grouped_group_rows [of logs] unfolding grouped_def by blast+
  have "distinct (map conv.conversation_id (map snd (group_rows logs)))"
    using g1 by (simp only: conv_list_ids)
  then have a: "distinct (map conv.conversation_id (conv_list logs))"
    by (simp only: conv_list_def distinct_map_sorted_reverse)
  have b: "set (map conv.conversation_id (conv_list logs)) = {cid. cid \<noteq> [] \<and> rows_of cid logs \<noteq> []}"
  proof -
    have "set (map conv.conversation_id (conv_list logs)) = set (map conv.conversation_id (map snd (group_rows logs)))"
      by (simp only: conv_list_def set_map set_sorted_reverse)
    also have "\<dots> = fst ` set (group_rows logs)"
      by (simp only: conv_list_ids set_map)
    also have "\<dots> = {cid. cid \<noteq> [] \<and> rows_of cid logs \<noteq> []}"
      using g2 by (intro set_eqI) simp
    finally show ?thesis .
  qed
  have c: "summarises c (rows_of (conv.conversation_id c) logs)" if "c \<in> set (conv_list logs)" for c
  proof -
    from that have "c \<in> snd ` set (group_rows logs)"
      by (simp add: conv_list_def)
    then obtain cid where "(cid, c) \<in> set (group_rows logs)"
      by force
    from g3 [OF this] show ?thesis by simp
  qed
  have d: "sorted_wrt (\<lambda>a b. latest_key b \<le> latest_key a) (conv_list logs)"
    unfolding conv_list_def by (rule sorted_reverse_descending)
  have e: "conversations_of logs limit = take (nat limit) (conv_list logs)"
    using assms by (simp only: conversations_of_def slice_to_def if_True)
  have e': "length (conversations_of logs limit) \<le> nat limit"
    unfolding e by simp
  have f: "sorted_wrt (\<lambda>a b. latest_key b \<le> latest_key a) (conversations_of logs limit)"
    unfolding conversations_of_def using d by (rule slice_to_descending)
  have g: "conversations_of example_rows 50 =
        [\<lparr>conv.conversation_id = ''a'', latest = PStr ''2024-01-02'', conv.model = PNone,
          count = 2, last_prompt = PStr []\<rparr>,
         \<lparr>conv.conversation_id = ''b'', latest = PStr ''2024-01-01'', conv.model = PNone,
          count = 1, last_prompt = PStr []\<rparr>]"
    by (simp add: conversations_of_def slice_to_def conv_list_example)
  from a b c d e e' f g show ?thesis by (intro conjI ballI)
qed

text \<open>C2 at the rows of the example and the limit 1: the summary of \<open>a\<close> is in the list and
  summarises the two rows of \<open>a\<close>, and the list returned is cut to its first summary.\<close>

theorem conversations_grouped_witness:
  "\<lparr>conv.conversation_id = ''a'', latest = PStr ''2024-01-02'', conv.model = PNone,
     count = 2, last_prompt = PStr []\<rparr> \<in> set (conv_list example_rows)
   \<and> summarises \<lparr>conv.conversation_id = ''a'', latest = PStr ''2024-01-02'', conv.model = PNone,
         count = 2, last_prompt = PStr []\<rparr> (rows_of ''a'' example_rows)
   \<and> length (rows_of ''a'' example_rows) = 2
   \<and> conversations_of example_rows 1 = take 1 (conv_list example_rows)"
proof -
  let ?a = "\<lparr>conv.conversation_id = ''a'', latest = PStr ''2024-01-02'', conv.model = PNone,
     count = 2, last_prompt = PStr []\<rparr>"
  have mem: "?a \<in> set (conv_list example_rows)"
    by (simp add: conv_list_example)
  have "(0::int) \<le> 1"
    by simp
  from conversations_grouped [OF this, of example_rows]
  have all: "\<forall>c \<in> set (conv_list example_rows). summarises c (rows_of (conv.conversation_id c) example_rows)"
    and lim: "conversations_of example_rows 1 = take 1 (conv_list example_rows)"
    by simp_all
  from all mem have "summarises ?a (rows_of (conv.conversation_id ?a) example_rows)"
    by (rule bspec)
  moreover have "length (rows_of ''a'' example_rows) = 2"
    by (simp add: rows_of_def example_rows_def dict_get_def)
  ultimately show ?thesis using mem lim by simp
qed

text \<open>
  The handler does not check its \<open>limit\<close> parameter. A negative one reaches the slice
  \<^verbatim>\<open>conv_list[:limit]\<close>, which then counts from the end: with \<open>limit = -1\<close> the two
  summaries of the example lose the last one.
\<close>

lemma conversations_of_negative_limit:
  "conversations_of example_rows (- 1)
     = [\<lparr>conv.conversation_id = ''a'', latest = PStr ''2024-01-02'', conv.model = PNone,
         count = 2, last_prompt = PStr []\<rparr>]"
  by (simp add: conversations_of_def slice_to_def conv_list_example)

section \<open>Properties of the command builder\<close>

subsection \<open>Each statement of the builder appends the tokens of its field\<close>

lemma fold_extend:
  "fold (\<lambda>x cmd. cmd @ f x) xs cmd = cmd @ concat (map f xs)"
  by (induction xs arbitrary: cmd) simp_all

lemma extend_flag_eq: "extend_flag flag v cmd = cmd @ optional_flag flag v"
  by (simp add: extend_flag_def optional_flag_def split: option.splits)

lemma extend_each_eq: "extend_each flag vs cmd = cmd @ repeated_flag flag vs"
  by (simp add: extend_each_def repeated_flag_def items_def fold_extend split: option.splits)

lemma fold_options:
  "fold (\<lambda>(key, v) cmd. cmd @ [''-o'', key, str_of v]) entries cmd
     = cmd @ concat (map (\<lambda>(key, v). [''-o'', key, str_of v]) entries)"
  using fold_extend [of "\<lambda>(key, v). [''-o'', key, str_of v]" entries cmd]
  by (simp add: case_prod_unfold)

lemma execute_prompt_add_options_eq:
  "execute_prompt_add_options str_of opts cmd = cmd @ option_flags str_of opts"
  by (simp add: execute_prompt_add_options_def option_flags_def items_def fold_options
      split: option.splits)

lemma chat_message_add_options_eq:
  "chat_message_add_options str_of opts cmd = cmd @ option_flags str_of opts"
  by (simp add: chat_message_add_options_def option_flags_def items_def fold_options
      split: option.splits)

lemma extend_reasoning_eq:
  assumes "\<And>opts cmd. add_options opts cmd = cmd @ option_flags str_of opts"
  shows "extend_reasoning dumps add_options r cmd = cmd @ reasoning_flags dumps str_of r"
  by (simp add: extend_reasoning_def reasoning_flags_def items_def assms
      split: option.splits sum.splits)

lemma extend_attachment_types_eq:
  "extend_attachment_types ats cmd =
     (if \<forall>entry \<in> set ats. length entry = 2
      then Inr (cmd @ attachment_type_flags (Some ats))
      else Inl ValueError)"
  by (induction ats cmd rule: extend_attachment_types.induct)
    (simp_all add: attachment_type_flags_def items_def)

lemma extend_extra_args_eq: "extend_extra_args split extra cmd = cmd @ extra_tokens split extra"
  by (simp add: extend_extra_args_def extra_tokens_def split: option.splits sum.splits)

lemma attachment_type_flags_empty [simp]:
  "attachment_type_flags None = []" "attachment_type_flags (Some []) = []"
  by (simp_all add: attachment_type_flags_def items_def)

lemma items_simps [simp]: "items None = []" "items (Some xs) = xs"
  by (simp_all add: items_def)

lemma execute_prompt_cmd_eq:
  "execute_prompt_cmd str_of dumps split request =
     (if \<forall>entry \<in> set (items (attachment_types request)). length entry = 2
      then Inr ([''llm'', ''prompt'']
                @ prompt_flags str_of dumps request
                @ repeated_flag ''-a'' (attachments request)
                @ attachment_type_flags (attachment_types request)
                @ extra_tokens split (PromptRequest.extra_args request)
                @ [prompt request])
      else Inl ValueError)"
proof (cases "attachment_types request")
  case None
  then show ?thesis
    by (simp add: execute_prompt_cmd_def prompt_flags_def extend_flag_eq extend_each_eq
        execute_prompt_add_options_eq extend_reasoning_eq [of _ str_of] extend_extra_args_eq
        Let_def)
next
  case (Some ats)
  then show ?thesis
    by (simp add: execute_prompt_cmd_def prompt_flags_def extend_flag_eq extend_each_eq
        execute_prompt_add_options_eq extend_reasoning_eq [of _ str_of] extend_extra_args_eq
        extend_attachment_types_eq Let_def)
qed

lemma chat_message_cmd_eq:
  "chat_message_cmd str_of dumps split msg =
     [''llm'', ''chat''] @ chat_flags str_of dumps msg
     @ extra_tokens split (ChatMessage.extra_args msg)"
  by (simp add: chat_message_cmd_def chat_flags_def extend_flag_eq extend_each_eq
      chat_message_add_options_eq extend_reasoning_eq [of _ str_of] extend_extra_args_eq Let_def)

lemma triples_length:
  "(\<And>x. length (f x) = 3) \<Longrightarrow> length (concat (map f xs)) = 3 * length xs"
  by (induction xs) simp_all

lemma triples_nth:
  "(\<And>x. length (f x) = 3) \<Longrightarrow> i < length xs \<Longrightarrow>
   take 3 (drop (3 * i) (concat (map f xs))) = f (xs ! i)"
proof (induction xs arbitrary: i)
  case Nil
  then show ?case by simp
next
  case (Cons x xs)
  show ?case
  proof (cases i)
    case 0
    then show ?thesis using Cons.prems(1) [of x] by simp
  next
    case (Suc j)
    then have "take 3 (drop (3 * i) (concat (map f (x # xs)))) = take 3 (drop (3 * j) (concat (map f xs)))"
      using Cons.prems(1) [of x] by simp
    then show ?thesis using Cons.IH [of j] Cons.prems Suc by simp
  qed
qed

lemma option_flags_length: "length (option_flags str_of opts) = 3 * length (items opts)"
  unfolding option_flags_def by (rule triples_length) (simp add: case_prod_unfold)

lemma option_flags_nth:
  "i < length (items opts) \<Longrightarrow>
   take 3 (drop (3 * i) (option_flags str_of opts))
     = [''-o'', fst (items opts ! i), str_of (snd (items opts ! i))]"
  unfolding option_flags_def
  using triples_nth [of "\<lambda>(key, v). [''-o'', key, str_of v]" i "items opts"]
  by (simp add: case_prod_unfold)

subsection \<open>The order of the argument vector\<close>

text \<open>
  Claim C6. The argument vector of a prompt request is \<^verbatim>\<open>llm prompt\<close>, the flags of the
  model, the system prompt, the template, the tools, the options and the reasoning, then
  \<open>-a path\<close> for every attachment in the order of the request, then
  \<open>--at path mimetype\<close> for every pair in the order of the request, then the words of
  the extra flags, and last the prompt. The extra flags are left out when they cannot be
  split. The vector is built exactly when every entry of \<^verbatim>\<open>attachment_types\<close> has two
  items; unpacking another entry raises \<^verbatim>\<open>ValueError\<close>.
\<close>

theorem execute_prompt_cmd_order:
  "execute_prompt_cmd str_of dumps split request =
     (if \<forall>entry \<in> set (items (attachment_types request)). length entry = 2
      then Inr ([''llm'', ''prompt'']
                @ prompt_flags str_of dumps request
                @ concat (map (\<lambda>path. [''-a'', path]) (items (attachments request)))
                @ concat (map (\<lambda>entry. [''--at'', entry ! 0, entry ! 1]) (items (attachment_types request)))
                @ extra_tokens split (PromptRequest.extra_args request)
                @ [prompt request])
      else Inl ValueError)
   \<and> (\<forall>argv. execute_prompt_cmd str_of dumps split request = Inr argv \<longrightarrow>
          argv \<noteq> [] \<and> last argv = prompt request)
   \<and> (\<forall>s e. split s = Inl e \<longrightarrow> extra_tokens split (Some s) = [])
   \<and> (\<forall>s tokens. s \<noteq> [] \<and> split s = Inr tokens \<longrightarrow> extra_tokens split (Some s) = tokens)"
proof -
  have "attachment_type_flags (attachment_types request)
      = concat (map (\<lambda>entry. [''--at'', entry ! 0, entry ! 1]) (items (attachment_types request)))"
    if "\<forall>entry \<in> set (items (attachment_types request)). length entry = 2"
  proof -
    have "(case entry of [path, mimetype] \<Rightarrow> [''--at'', path, mimetype] | _ \<Rightarrow> [])
        = [''--at'', entry ! 0, entry ! 1]" if "length entry = 2" for entry :: "string list"
      using that by (cases entry rule: list.exhaust [case_product list.exhaust]) 
        (auto split: list.splits simp: length_Suc_conv)
    then show ?thesis
      using that unfolding attachment_type_flags_def by (intro arg_cong [where f = concat] map_cong) auto
  qed
  then show ?thesis
    by (auto simp: execute_prompt_cmd_eq repeated_flag_def extra_tokens_def split: if_splits)
qed

text \<open>C6 at a request with a model, two attachments, one typed attachment and extra
  flags that split in two words, and at a request whose extra flags cannot be split.\<close>

theorem execute_prompt_cmd_order_witness:
  "execute_prompt_cmd (\<lambda>v. case v of JString s \<Rightarrow> s | _ \<Rightarrow> [])
     (\<lambda>entries. Inr ''{}'')
     (\<lambda>s. if s = ''--raw --no-log'' then Inr [''--raw'', ''--no-log''] else Inl ''No closing quotation'')
     \<lparr>prompt = ''describe'', model = Some ''gpt'', system = None,
      attachments = Some [''a.png'', ''b.png''],
      attachment_types = Some [[''c.bin'', ''image/png'']],
      template = None, options = None, tools = None, stream = True, reasoning = None,
      extra_args = Some ''--raw --no-log''\<rparr>
   = Inr [''llm'', ''prompt'', ''-m'', ''gpt'', ''-a'', ''a.png'', ''-a'', ''b.png'',
          ''--at'', ''c.bin'', ''image/png'', ''--raw'', ''--no-log'', ''describe'']
   \<and> execute_prompt_cmd (\<lambda>v. case v of JString s \<Rightarrow> s | _ \<Rightarrow> [])
     (\<lambda>entries. Inr ''{}'')
     (\<lambda>s. if s = ''--raw --no-log'' then Inr [''--raw'', ''--no-log''] else Inl ''No closing quotation'')
     \<lparr>prompt = ''describe'', model = None, system = None,
      attachments = None, attachment_types = None,
      template = None, options = None, tools = None, stream = True, reasoning = None,
      extra_args = Some ''--system 'open''\<rparr>
   = Inr [''llm'', ''prompt'', ''describe'']"
  using execute_prompt_cmd_order
      [where str_of = "\<lambda>v. case v of JString s \<Rightarrow> s | _ \<Rightarrow> []"
         and dumps = "\<lambda>entries. Inr ''{}''"
         and split = "\<lambda>s. if s = ''--raw --no-log'' then Inr [''--raw'', ''--no-log'']
                         else Inl ''No closing quotation''"
         and request = "\<lparr>prompt = ''describe'', model = Some ''gpt'', system = None,
            attachments = Some [''a.png'', ''b.png''],
            attachment_types = Some [[''c.bin'', ''image/png'']],
            template = None, options = None, tools = None, stream = True, reasoning = None,
            extra_args = Some ''--raw --no-log''\<rparr>"]
    execute_prompt_cmd_order
      [where str_of = "\<lambda>v. case v of JString s \<Rightarrow> s | _ \<Rightarrow> []"
         and dumps = "\<lambda>entries. Inr ''{}''"
         and split = "\<lambda>s. if s = ''--raw --no-log'' then Inr [''--raw'', ''--no-log'']
                         else Inl ''No closing quotation''"
         and request = "\<lparr>prompt = ''describe'', model = None, system = None,
            attachments = None, attachment_types = None,
            template = None, options = None, tools = None, stream = True, reasoning = None,
            extra_args = Some ''--system 'open''\<rparr>"]
  by (simp add: prompt_flags_def optional_flag_def repeated_flag_def option_flags_def
      reasoning_flags_def extra_tokens_def)

text \<open>
  Claim C7. For an option mapping, \<^verbatim>\<open>add_options\<close> (of the prompt handler and of the chat
  handler) appends three tokens for each entry, in the order of the mapping: \<open>-o\<close>, the
  key, and the value as a token of its own right after the key; never one token
  \<open>key=value\<close>. These tokens are part of the argument vector of the prompt and of the
  chat command.
\<close>

theorem add_options_two_token_form:
  "execute_prompt_add_options str_of opts cmd = cmd @ option_flags str_of opts
   \<and> chat_message_add_options str_of opts cmd = cmd @ option_flags str_of opts
   \<and> length (option_flags str_of opts) = 3 * length (items opts)
   \<and> (\<forall>i < length (items opts).
         take 3 (drop (3 * i) (option_flags str_of opts))
           = [''-o'', fst (items opts ! i), str_of (snd (items opts ! i))])
   \<and> (\<exists>pre post. chat_message_cmd str_of dumps split msg
          = pre @ option_flags str_of (ChatMessage.options msg) @ post)
   \<and> (\<forall>argv. execute_prompt_cmd str_of dumps split request = Inr argv \<longrightarrow>
         (\<exists>pre post. argv = pre @ option_flags str_of (PromptRequest.options request) @ post))"
proof -
  have "\<exists>pre post. chat_message_cmd str_of dumps split msg
          = pre @ option_flags str_of (ChatMessage.options msg) @ post"
    unfolding chat_message_cmd_eq chat_flags_def
    by (metis append.assoc)
  moreover have "\<exists>pre post. argv = pre @ option_flags str_of (PromptRequest.options request) @ post"
    if "execute_prompt_cmd str_of dumps split request = Inr argv" for argv
  proof -
    from that have "argv = [''llm'', ''prompt'']
                @ prompt_flags str_of dumps request
                @ repeated_flag ''-a'' (attachments request)
                @ attachment_type_flags (attachment_types request)
                @ extra_tokens split (PromptRequest.extra_args request)
                @ [prompt request]"
      by (simp add: execute_prompt_cmd_eq split: if_splits)
    then show ?thesis
      unfolding prompt_flags_def by (metis append.assoc)
  qed
  ultimately show ?thesis
    by (simp add: execute_prompt_add_options_eq chat_message_add_options_eq option_flags_length
        option_flags_nth)
qed

text \<open>C7 at a mapping of two options: the second entry gives the tokens 3 to 5.\<close>

theorem add_options_two_token_form_witness:
  "execute_prompt_add_options (\<lambda>v. case v of JString s \<Rightarrow> s | _ \<Rightarrow> [])
     (Some [(''temperature'', JString ''0.2''), (''max_tokens'', JString ''64'')]) [''llm'', ''prompt'']
   = [''llm'', ''prompt'', ''-o'', ''temperature'', ''0.2'', ''-o'', ''max_tokens'', ''64'']
   \<and> take 3 (drop (3 * 1) (option_flags (\<lambda>v. case v of JString s \<Rightarrow> s | _ \<Rightarrow> [])
        (Some [(''temperature'', JString ''0.2''), (''max_tokens'', JString ''64'')])))
   = [''-o'', ''max_tokens'', ''64'']"
proof -
  note t = add_options_two_token_form
      [where str_of = "\<lambda>v. case v of JString s \<Rightarrow> s | _ \<Rightarrow> []"
         and opts = "Some [(''temperature'', JString ''0.2''), (''max_tokens'', JString ''64'')]"
         and cmd = "[''llm'', ''prompt'']"]
  from t have "execute_prompt_add_options (\<lambda>v. case v of JString s \<Rightarrow> s | _ \<Rightarrow> [])
     (Some [(''temperature'', JString ''0.2''), (''max_tokens'', JString ''64'')]) [''llm'', ''prompt'']
     = [''llm'', ''prompt''] @ option_flags (\<lambda>v. case v of JString s \<Rightarrow> s | _ \<Rightarrow> [])
        (Some [(''temperature'', JString ''0.2''), (''max_tokens'', JString ''64'')])"
    by blast
  moreover from t have "\<forall>i < length (items (Some [(''temperature'', JString ''0.2''), (''max_tokens'', JString ''64'')])).
      take 3 (drop (3 * i) (option_flags (\<lambda>v. case v of JString s \<Rightarrow> s | _ \<Rightarrow> [])
        (Some [(''temperature'', JString ''0.2''), (''max_tokens'', JString ''64'')])))
      = [''-o'', fst (items (Some [(''temperature'', JString ''0.2''), (''max_tokens'', JString ''64'')]) ! i),
         (\<lambda>v. case v of JString s \<Rightarrow> s | _ \<Rightarrow> [])
           (snd (items (Some [(''temperature'', JString ''0.2''), (''max_tokens'', JString ''64'')]) ! i))]"
    by blast
  from this [rule_format, of 1] have "take 3 (drop (3 * 1) (option_flags (\<lambda>v. case v of JString s \<Rightarrow> s | _ \<Rightarrow> [])
        (Some [(''temperature'', JString ''0.2''), (''max_tokens'', JString ''64'')])))
   = [''-o'', ''max_tokens'', ''64'']"
    by simp
  ultimately show ?thesis
    by (simp add: option_flags_def)
qed

text \<open>
  Claim C8. For a reasoning mapping that is not empty, the builder appends the three
  tokens \<open>-o reasoning json\<close>, where \<open>json\<close> is the mapping as \<^verbatim>\<open>json.dumps\<close> encodes it;
  when \<^verbatim>\<open>json.dumps\<close> raises, it appends \<open>-o key value\<close> for each entry of the mapping
  instead, and the argument vector is built all the same.
\<close>

theorem reasoning_single_triple_or_fallback:
  assumes "entries \<noteq> []"
  shows "(\<forall>encoded. dumps entries = Inr encoded \<longrightarrow>
            extend_reasoning dumps (execute_prompt_add_options str_of) (Some entries) cmd
              = cmd @ [''-o'', ''reasoning'', encoded]
          \<and> extend_reasoning dumps (chat_message_add_options str_of) (Some entries) cmd
              = cmd @ [''-o'', ''reasoning'', encoded])
       \<and> (\<forall>e. dumps entries = Inl e \<longrightarrow>
            extend_reasoning dumps (execute_prompt_add_options str_of) (Some entries) cmd
              = cmd @ concat (map (\<lambda>(key, v). [''-o'', key, str_of v]) entries)
          \<and> extend_reasoning dumps (chat_message_add_options str_of) (Some entries) cmd
              = cmd @ concat (map (\<lambda>(key, v). [''-o'', key, str_of v]) entries))
       \<and> (ChatMessage.reasoning msg = Some entries \<longrightarrow>
            (\<exists>pre post. chat_message_cmd str_of dumps split msg
               = pre @ (case dumps entries of
                          Inr encoded \<Rightarrow> [''-o'', ''reasoning'', encoded]
                        | Inl e \<Rightarrow> concat (map (\<lambda>(key, v). [''-o'', key, str_of v]) entries)) @ post))
       \<and> (PromptRequest.reasoning request = Some entries
            \<and> (\<forall>entry \<in> set (items (attachment_types request)). length entry = 2) \<longrightarrow>
            (\<exists>pre post. execute_prompt_cmd str_of dumps split request
               = Inr (pre @ (case dumps entries of
                          Inr encoded \<Rightarrow> [''-o'', ''reasoning'', encoded]
                        | Inl e \<Rightarrow> concat (map (\<lambda>(key, v). [''-o'', key, str_of v]) entries)) @ post)))"
proof -
  have flags: "reasoning_flags dumps str_of (Some entries)
      = (case dumps entries of
           Inr encoded \<Rightarrow> [''-o'', ''reasoning'', encoded]
         | Inl e \<Rightarrow> concat (map (\<lambda>(key, v). [''-o'', key, str_of v]) entries))"
    using assms by (simp add: reasoning_flags_def option_flags_def split: sum.splits)
  have a: "extend_reasoning dumps (execute_prompt_add_options str_of) (Some entries) cmd
      = cmd @ reasoning_flags dumps str_of (Some entries)"
    by (rule extend_reasoning_eq) (rule execute_prompt_add_options_eq)
  have b: "extend_reasoning dumps (chat_message_add_options str_of) (Some entries) cmd
      = cmd @ reasoning_flags dumps str_of (Some entries)"
    by (rule extend_reasoning_eq) (rule chat_message_add_options_eq)
  have c: "\<exists>pre post. chat_message_cmd str_of dumps split msg
               = pre @ reasoning_flags dumps str_of (Some entries) @ post"
    if "ChatMessage.reasoning msg = Some entries"
    unfolding chat_message_cmd_eq chat_flags_def that by (metis append.assoc)
  have d: "\<exists>pre post. execute_prompt_cmd str_of dumps split request
               = Inr (pre @ reasoning_flags dumps str_of (Some entries) @ post)"
    if "PromptRequest.reasoning request = Some entries"
      "\<forall>entry \<in> set (items (attachment_types request)). length entry = 2"
  proof -
    have "execute_prompt_cmd str_of dumps split request
        = Inr ([''llm'', ''prompt'']
                @ prompt_flags str_of dumps request
                @ repeated_flag ''-a'' (attachments request)
                @ attachment_type_flags (attachment_types request)
                @ extra_tokens split (PromptRequest.extra_args request)
                @ [prompt request])"
      using that(2) by (simp add: execute_prompt_cmd_eq)
    then show ?thesis
      unfolding prompt_flags_def that(1) by (metis append.assoc)
  qed
  from a b c d show ?thesis
    unfolding flags by (auto split: sum.splits)
qed

text \<open>C8 at a mapping of one entry, encoded by \<^verbatim>\<open>json.dumps\<close> and refused by it.\<close>

theorem reasoning_single_triple_or_fallback_witness:
  "extend_reasoning (\<lambda>entries. Inr ''{effort: high}'')
     (execute_prompt_add_options (\<lambda>v. case v of JString s \<Rightarrow> s | _ \<Rightarrow> []))
     (Some [(''effort'', JString ''high'')]) [''llm'', ''prompt'']
   = [''llm'', ''prompt'', ''-o'', ''reasoning'', ''{effort: high}'']
   \<and> extend_reasoning (\<lambda>entries. Inl ''Object is not JSON serializable'')
     (chat_message_add_options (\<lambda>v. case v of JString s \<Rightarrow> s | _ \<Rightarrow> []))
     (Some [(''effort'', JString ''high'')]) [''llm'', ''chat'']
   = [''llm'', ''chat'', ''-o'', ''effort'', ''high'']"
proof -
  have ne: "[(''effort'', JString ''high'')] \<noteq> []"
    by simp
  from reasoning_single_triple_or_fallback
      [where dumps = "\<lambda>entries. Inr ''{effort: high}''" and cmd = "[''llm'', ''prompt'']"
         and str_of = "\<lambda>v. case v of JString s \<Rightarrow> s | _ \<Rightarrow> []", OF ne]
    reasoning_single_triple_or_fallback
      [where dumps = "\<lambda>entries. Inl ''Object is not JSON serializable''" and cmd = "[''llm'', ''chat'']"
         and str_of = "\<lambda>v. case v of JString s \<Rightarrow> s | _ \<Rightarrow> []", OF ne]
  show ?thesis by simp
qed

text \<open>
  Claim C9. The argument vector of a chat message does not depend on the text of the
  message: it is \<^verbatim>\<open>llm chat\<close>, the flags of the message and the words of the extra
  flags. The text goes to the standard input of the child: once the child is started
  and the input drained, the generator has written the text followed by one newline and
  then closed the input; it writes nothing else in any case.
\<close>

theorem chat_message_on_stdin:
  "chat_message_cmd str_of dumps split (msg\<lparr>message := text\<rparr>) = chat_message_cmd str_of dumps split msg
   \<and> chat_message_cmd str_of dumps split msg
        = [''llm'', ''chat''] @ chat_flags str_of dumps msg
          @ extra_tokens split (ChatMessage.extra_args msg)
   \<and> (\<forall>p. spawn (chat_message_cmd str_of dumps split msg) = Inr p \<and> stdin_drain p = Inr () \<longrightarrow>
         snd (chat_message str_of dumps split spawn decode msg)
           = [Write (message msg @ ''\<newline>''), Close])
   \<and> set (snd (chat_message str_of dumps split spawn decode msg))
        \<subseteq> {Write (message msg @ ''\<newline>''), Close}"
  by (auto simp: chat_message_cmd_eq chat_flags_def chat_message_def stream_llm_chat_response_def
      Let_def split: sum.splits prod.splits)

text \<open>C9 at a message \<^verbatim>\<open>hello\<close> of the conversation \<^verbatim>\<open>01abc\<close>.\<close>

theorem chat_message_on_stdin_witness:
  "chat_message (\<lambda>v. case v of JString s \<Rightarrow> s | _ \<Rightarrow> []) (\<lambda>entries. Inr ''{}'') (\<lambda>s. Inr [s])
     (\<lambda>cmd. Inr \<lparr>stdout_readline = [Inr ''Hi!\<newline>''], stdin_drain = Inr (), wait = Inr 0,
                  stderr_read = Inr []\<rparr>)
     Inr
     \<lparr>message = ''hello'', model = Some ''gpt'', conversation_id = Some ''01abc'', system = None,
      tools = None, options = None, reasoning = None, extra_args = None\<rparr>
   = (StreamingResponse [''Hi!\<newline>''], [Write ''hello\<newline>'', Close])
   \<and> chat_message_cmd (\<lambda>v. case v of JString s \<Rightarrow> s | _ \<Rightarrow> []) (\<lambda>entries. Inr ''{}'') (\<lambda>s. Inr [s])
     \<lparr>message = ''hello'', model = Some ''gpt'', conversation_id = Some ''01abc'', system = None,
      tools = None, options = None, reasoning = None, extra_args = None\<rparr>
   = [''llm'', ''chat'', ''-m'', ''gpt'', ''--cid'', ''01abc'']"
proof -
  let ?msg = "\<lparr>message = ''hello'', model = Some ''gpt'', conversation_id = Some ''01abc'',
      system = None, tools = None, options = None, reasoning = None, extra_args = None\<rparr>"
  let ?p = "\<lparr>stdout_readline = [Inr ''Hi!\<newline>''], stdin_drain = Inr (), wait = Inr 0,
                  stderr_read = Inr []\<rparr>"
  note t = chat_message_on_stdin
      [where str_of = "\<lambda>v. case v of JString s \<Rightarrow> s | _ \<Rightarrow> []" and dumps = "\<lambda>entries. Inr ''{}''"
         and split = "\<lambda>s. Inr [s]" and msg = "?msg" and spawn = "\<lambda>cmd. Inr ?p" and decode = Inr]
  from t have cmd: "chat_message_cmd (\<lambda>v. case v of JString s \<Rightarrow> s | _ \<Rightarrow> []) (\<lambda>entries. Inr ''{}'')
      (\<lambda>s. Inr [s]) ?msg = [''llm'', ''chat'', ''-m'', ''gpt'', ''--cid'', ''01abc'']"
    by (simp add: chat_flags_def optional_flag_def repeated_flag_def option_flags_def
        reasoning_flags_def extra_tokens_def)
  from t have "snd (chat_message (\<lambda>v. case v of JString s \<Rightarrow> s | _ \<Rightarrow> []) (\<lambda>entries. Inr ''{}'')
      (\<lambda>s. Inr [s]) (\<lambda>cmd. Inr ?p) Inr ?msg) = [Write ''hello\<newline>'', Close]"
    by simp
  moreover have "fst (chat_message (\<lambda>v. case v of JString s \<Rightarrow> s | _ \<Rightarrow> []) (\<lambda>entries. Inr ''{}'')
      (\<lambda>s. Inr [s]) (\<lambda>cmd. Inr ?p) Inr ?msg) = StreamingResponse [''Hi!\<newline>'']"
    by (simp add: chat_message_def stream_llm_chat_response_def drain_output_def)
  ultimately show ?thesis
    using cmd by (simp add: prod_eq_iff)
qed

section \<open>Properties of the streamer\<close>

lemma read_lines_decoded:
  "list_all2 (decodes_to decode) lines texts \<Longrightarrow>
   read_lines decode (map Inr lines @ rest)
     = (texts @ fst (read_lines decode rest), snd (read_lines decode rest))"
  by (induction lines texts rule: list_all2_induct)
    (auto simp: decodes_to_def split: prod.splits)

lemma read_lines_all:
  "list_all2 (decodes_to decode) lines texts \<Longrightarrow> read_lines decode (map Inr lines) = (texts, None)"
  using read_lines_decoded [of decode lines texts "[]"] by simp



text \<open>
  Claim C3, as the code has it. When the child is started, every \<^verbatim>\<open>readline\<close> returns one
  of the \<open>N\<close> lines the child wrote, each of these lines decodes as UTF-8, and the child
  exits with code 0, the generator yields exactly \<open>N\<close> chunks: the decoded lines, in their
  order, and no error chunk after them.
\<close>

theorem stream_yields_each_line:
  assumes "spawn cmd = Inr p"
      and "stdout_readline p = map Inr lines"
      and "list_all2 (decodes_to decode) lines texts"
      and "wait p = Inr 0"
  shows "stream_llm_response spawn decode cmd = texts
       \<and> length (stream_llm_response spawn decode cmd) = length lines
       \<and> (\<forall>i < length lines. decode (lines ! i) = Inr (stream_llm_response spawn decode cmd ! i))"
proof -
  have "stream_llm_response spawn decode cmd = texts"
    using assms by (simp add: stream_llm_response_def drain_output_def read_lines_all)
  moreover have "length texts = length lines"
    using assms(3) by (simp add: list_all2_lengthD)
  moreover have "decode (lines ! i) = Inr (texts ! i)" if "i < length lines" for i
    using assms(3) that by (auto simp: list_all2_conv_all_nth decodes_to_def)
  ultimately show ?thesis by simp
qed

text \<open>C3 at a child that writes two lines and exits with code 0.\<close>

theorem stream_yields_each_line_witness:
  "stream_llm_response
     (\<lambda>cmd. Inr \<lparr>stdout_readline = [Inr (''Hello\<newline>''), Inr ''world''],
                  stdin_drain = Inr (), wait = Inr 0, stderr_read = Inr []\<rparr>)
     Inr [''llm'', ''prompt'', ''hi'']
   = [''Hello\<newline>'', ''world'']"
proof -
  let ?p = "\<lparr>stdout_readline = [Inr (''Hello\<newline>''), Inr ''world''],
             stdin_drain = Inr (), wait = Inr 0, stderr_read = Inr []\<rparr>"
  have "list_all2 (decodes_to Inr) [''Hello\<newline>'', ''world''] [''Hello\<newline>'', ''world'']"
    by (simp add: decodes_to_def)
  from stream_yields_each_line [where spawn = "\<lambda>cmd. Inr ?p" and cmd = "[''llm'', ''prompt'', ''hi'']"
      and p = "?p", OF _ _ this]
  show ?thesis by simp
qed

text \<open>
  Claim C3 as stated speaks of every command that writes \<open>N\<close> lines and exits with code 0.
  A child that writes the two lines \<^verbatim>\<open>b'\xff\n'\<close> and \<^verbatim>\<open>b'ok\n'\<close> and exits with code 0
  gets one chunk, an error chunk: the first line is no UTF-8, \<^verbatim>\<open>decode\<close> raises inside
  the \<^verbatim>\<open>try\<close> and the second line is never read. And a child that exits with code 0
  after a line longer than the limit of the stream reader, where \<^verbatim>\<open>readline\<close> raises
  \<^verbatim>\<open>ValueError\<close>, gets an error chunk after the chunk of its first line.
\<close>

theorem stream_undecodable_line_counterexample:
  "stream_llm_response
     (\<lambda>cmd. Inr \<lparr>stdout_readline = [Inr [CHR 0xFF, CHR 0x0A], Inr ''ok\<newline>''],
                  stdin_drain = Inr (), wait = Inr 0, stderr_read = Inr []\<rparr>)
     (\<lambda>bytes. if CHR 0xFF \<in> set bytes
        then Inl (CHR 0x27 # ''utf-8'' @ CHR 0x27 # '' codec can't decode byte 0xff in position 0: invalid start byte'')
        else Inr bytes)
     [''llm'', ''prompt'', ''hi'']
   = [''\<newline>Error: '' @ CHR 0x27 # ''utf-8'' @ CHR 0x27 # '' codec can't decode byte 0xff in position 0: invalid start byte'']
   \<and> length (stream_llm_response
     (\<lambda>cmd. Inr \<lparr>stdout_readline = [Inr [CHR 0xFF, CHR 0x0A], Inr ''ok\<newline>''],
                  stdin_drain = Inr (), wait = Inr 0, stderr_read = Inr []\<rparr>)
     (\<lambda>bytes. if CHR 0xFF \<in> set bytes
        then Inl (CHR 0x27 # ''utf-8'' @ CHR 0x27 # '' codec can't decode byte 0xff in position 0: invalid start byte'')
        else Inr bytes)
     [''llm'', ''prompt'', ''hi'']) \<noteq> 2
   \<and> stream_llm_response
     (\<lambda>cmd. Inr \<lparr>stdout_readline =
                    [Inr ''ok\<newline>'', Inl ''Separator is not found, and chunk exceed the limit''],
                  stdin_drain = Inr (), wait = Inr 0, stderr_read = Inr []\<rparr>)
     (\<lambda>bytes. if CHR 0xFF \<in> set bytes
        then Inl (CHR 0x27 # ''utf-8'' @ CHR 0x27 # '' codec can't decode byte 0xff in position 0: invalid start byte'')
        else Inr bytes)
     [''llm'', ''prompt'', ''hi'']
   = [''ok\<newline>'', ''\<newline>Error: Separator is not found, and chunk exceed the limit'']"
  by (simp add: stream_llm_response_def drain_output_def error_chunk_def)

text \<open>
  Claim C4, as the code has it. In streaming mode, prompt or chat, when the child is
  started (and, for chat, its standard input drained), its standard output is read and
  decoded to the end, it exits with a code other than 0 and its standard error is read
  and decoded, the last chunk is a newline, \<^verbatim>\<open>Error: \<close> and the standard error, after
  the chunks of the standard output. In buffered mode, when \<^verbatim>\<open>subprocess.run\<close> returns
  with a code other than 0, the handler raises \<^verbatim>\<open>HTTPException\<close> with status 500 and
  the detail \<^verbatim>\<open>LLM command failed: \<close> followed by the standard error.
\<close>

theorem nonzero_exit_surfaces_stderr:
  "(spawn cmd = Inr p \<and> stdout_readline p = map Inr lines
      \<and> list_all2 (decodes_to decode) lines texts
      \<and> wait p = Inr rc \<and> rc \<noteq> 0 \<and> stderr_read p = Inr err \<and> decode err = Inr err_text
    \<longrightarrow> stream_llm_response spawn decode cmd = texts @ [''\<newline>Error: '' @ err_text]
      \<and> (stdin_drain p = Inr () \<longrightarrow>
           fst (stream_llm_chat_response spawn decode cmd msg)
             = texts @ [''\<newline>Error: '' @ err_text]))
   \<and> (execute_prompt_cmd str_of dumps split request = Inr argv \<and> \<not> stream request
      \<and> run argv = Inr result \<and> returncode result \<noteq> 0
    \<longrightarrow> execute_prompt str_of dumps split spawn decode run request
          = Inl (HTTPException 500 (''LLM command failed: '' @ stderr result)))"
  by (auto simp: stream_llm_response_def stream_llm_chat_response_def drain_output_def
      read_lines_all error_chunk_def execute_prompt_def)

text \<open>C4 at a child that writes one line, then exits with code 1 in streaming mode and
  with code 2 in buffered mode, leaving \<^verbatim>\<open>Unknown model\<close> on its standard error.\<close>

theorem nonzero_exit_surfaces_stderr_witness:
  "stream_llm_response
     (\<lambda>cmd. Inr \<lparr>stdout_readline = [Inr (''partial\<newline>'')],
                  stdin_drain = Inr (), wait = Inr 1, stderr_read = Inr ''Unknown model''\<rparr>)
     Inr [''llm'', ''prompt'', ''hi'']
   = [''partial\<newline>'', ''\<newline>Error: Unknown model'']
   \<and> execute_prompt (\<lambda>v. []) (\<lambda>entries. Inr ''{}'') (\<lambda>s. Inr [s])
        (\<lambda>cmd. Inr \<lparr>stdout_readline = [Inr (''partial\<newline>'')],
                  stdin_drain = Inr (), wait = Inr 1, stderr_read = Inr ''Unknown model''\<rparr>) Inr
        (\<lambda>cmd. Inr \<lparr>returncode = 2, stdout = [], stderr = ''Unknown model''\<rparr>)
        \<lparr>prompt = ''hi'', model = Some ''gpt'', system = None, attachments = None,
         attachment_types = None, template = None, options = None, tools = None,
         stream = False, reasoning = None, extra_args = None\<rparr>
   = Inl (HTTPException 500 ''LLM command failed: Unknown model'')"
proof -
  let ?p = "\<lparr>stdout_readline = [Inr (''partial\<newline>'')],
             stdin_drain = Inr (), wait = Inr 1, stderr_read = Inr ''Unknown model''\<rparr>"
  let ?request = "\<lparr>prompt = ''hi'', model = Some ''gpt'', system = None, attachments = None,
         attachment_types = None, template = None, options = None, tools = None,
         stream = False, reasoning = None, extra_args = None\<rparr>"
  have cmd: "execute_prompt_cmd (\<lambda>v. []) (\<lambda>entries. Inr ''{}'') (\<lambda>s. Inr [s]) ?request
      = Inr [''llm'', ''prompt'', ''-m'', ''gpt'', ''hi'']"
    by (simp add: execute_prompt_cmd_eq prompt_flags_def optional_flag_def repeated_flag_def
        option_flags_def reasoning_flags_def extra_tokens_def)
  from nonzero_exit_surfaces_stderr [where spawn = "\<lambda>cmd. Inr ?p"
      and cmd = "[''llm'', ''prompt'', ''hi'']" and p = "?p"
      and lines = "[''partial\<newline>'']" and decode = Inr
      and texts = "[''partial\<newline>'']" and rc = 1 and err = "''Unknown model''"
      and err_text = "''Unknown model''"
      and str_of = "\<lambda>v. []" and dumps = "\<lambda>entries. Inr ''{}''" and split = "\<lambda>s. Inr [s]"
      and request = "?request" and argv = "[''llm'', ''prompt'', ''-m'', ''gpt'', ''hi'']"
      and run = "\<lambda>cmd. Inr \<lparr>returncode = 2, stdout = [], stderr = ''Unknown model''\<rparr>"
      and result = "\<lparr>returncode = 2, stdout = [], stderr = ''Unknown model''\<rparr>"]
  show ?thesis
    by (simp add: cmd decodes_to_def)
qed

text \<open>
  Claim C4 as stated speaks of every request whose child exits with a code other than 0.
  A child that writes the line \<^verbatim>\<open>b'\xff\n'\<close>, leaves \<^verbatim>\<open>Unknown model\<close> on its standard
  error and exits with code 1 gets one chunk that holds the text of the
  \<^verbatim>\<open>UnicodeDecodeError\<close>: the \<^verbatim>\<open>except\<close> branch is taken before \<^verbatim>\<open>process.wait()\<close>, and
  the standard error is never read.
\<close>

theorem nonzero_exit_undecodable_line_counterexample:
  "stream_llm_response
     (\<lambda>cmd. Inr \<lparr>stdout_readline = [Inr [CHR 0xFF, CHR 0x0A]],
                  stdin_drain = Inr (), wait = Inr 1, stderr_read = Inr ''Unknown model''\<rparr>)
     (\<lambda>bytes. if CHR 0xFF \<in> set bytes
        then Inl (CHR 0x27 # ''utf-8'' @ CHR 0x27 # '' codec can't decode byte 0xff in position 0: invalid start byte'')
        else Inr bytes)
     [''llm'', ''prompt'', ''hi'']
   = [''\<newline>Error: '' @ CHR 0x27 # ''utf-8'' @ CHR 0x27 # '' codec can't decode byte 0xff in position 0: invalid start byte'']
   \<and> last (stream_llm_response
     (\<lambda>cmd. Inr \<lparr>stdout_readline = [Inr [CHR 0xFF, CHR 0x0A]],
                  stdin_drain = Inr (), wait = Inr 1, stderr_read = Inr ''Unknown model''\<rparr>)
     (\<lambda>bytes. if CHR 0xFF \<in> set bytes
        then Inl (CHR 0x27 # ''utf-8'' @ CHR 0x27 # '' codec can't decode byte 0xff in position 0: invalid start byte'')
        else Inr bytes)
     [''llm'', ''prompt'', ''hi'']) \<noteq> ''\<newline>Error: Unknown model''"
  by (simp add: stream_llm_response_def drain_output_def error_chunk_def)



section \<open>Properties of the upload handlers\<close>

text \<open>
  Claim C10. For every uploaded file, and every state of the file system,
  \<^verbatim>\<open>upload_clipboard_image\<close> returns what \<^verbatim>\<open>upload_file\<close> returns and leaves the same
  files.
\<close>

theorem upload_clipboard_same_as_upload:
  "upload_clipboard_image mktemp write file fs = upload_file mktemp write file fs"
  by (simp add: upload_clipboard_image_def)

end
